theory Spec2Isabelle
  imports Complex_Main "HOL-Library.Sublist"
begin

section \<open>Common Python values\<close>

text \<open>
  Exceptions are values. Every \<open>raise\<close> of the source is a branch that returns
  \<open>Inl\<close> of one of these; \<open>str(e)\<close> is the message carried by the exception.
\<close>

datatype exn =
    ValueError string
  | TypeError string
  | RuntimeError string
  | ZeroDivisionError string
  | FileNotFoundError string
  | StopIteration
  | HTTPException nat string
  | OtherError string

fun str_exn :: "exn \<Rightarrow> string" where
  "str_exn (ValueError m) = m"
| "str_exn (TypeError m) = m"
| "str_exn (RuntimeError m) = m"
| "str_exn (ZeroDivisionError m) = m"
| "str_exn (FileNotFoundError m) = m"
| "str_exn StopIteration = []"
| "str_exn (HTTPException c m) = m"
| "str_exn (OtherError m) = m"

text \<open>\<open>s.startswith(p)\<close> on Python strings.\<close>

definition startswith :: "string \<Rightarrow> string \<Rightarrow> bool" where
  "startswith s p = (take (length p) s = p)"

section \<open>Rate limiter (\<open>reviewer/rate_limiter.py\<close>)\<close>

subsection \<open>The monotonic clock\<close>

text \<open>
  \<open>time.monotonic()\<close> is an input of the program. A clock is the last reading together
  with the increments that the coming readings will add; a reading consumes one increment.
  A run that needs more readings than the clock holds has the value \<open>None\<close>.
  \<open>time.sleep(w)\<close> moves the clock forward by \<open>w\<close>; whatever longer the sleep took is
  part of the next increment. Python floats are modelled as real numbers.
\<close>

type_synonym clock = "real \<times> real list"

fun monotonic :: "clock \<Rightarrow> (real \<times> clock) option" where
  "monotonic (t, []) = None"
| "monotonic (t, d # ds) = Some (t + d, (t + d, ds))"

definition sleep :: "real \<Rightarrow> clock \<Rightarrow> clock" where
  "sleep w c = (fst c + w, snd c)"

subsection \<open>class RateLimiter\<close>

record RateLimiter =
  rpm :: int
  burst :: int
  tokens :: real
  last_update :: real

text \<open>\<open>__init__\<close>: \<open>burst or rpm\<close> takes \<open>rpm\<close> when \<open>burst\<close> is \<open>None\<close> or \<open>0\<close>.\<close>

definition RateLimiter_init :: "int \<Rightarrow> int option \<Rightarrow> real \<Rightarrow> RateLimiter" where
  "RateLimiter_init r b t =
     (let bu = (case b of None \<Rightarrow> r | Some b' \<Rightarrow> if b' = 0 then r else b')
      in \<lparr>rpm = r, burst = bu, tokens = real_of_int bu, last_update = t\<rparr>)"

text \<open>
  The refill that \<open>acquire\<close> and \<open>try_acquire\<close> both perform under the lock:
  \<open>tokens = min(burst, tokens + elapsed * rpm / 60.0)\<close>, \<open>last_update = now\<close>.
\<close>

definition refilled :: "RateLimiter \<Rightarrow> real \<Rightarrow> real" where
  "refilled rl t =
     min (real_of_int (burst rl))
         (tokens rl + ((t - last_update rl) * real_of_int (rpm rl) / 60))"

definition refill :: "RateLimiter \<Rightarrow> real \<Rightarrow> RateLimiter" where
  "refill rl t = rl\<lparr>tokens := refilled rl t, last_update := t\<rparr>"

text \<open>
  \<open>acquire\<close>: the body of \<open>while True\<close>. One round takes a reading under the lock and,
  when no token is there, a second reading for the timeout check. With \<open>rpm = 0\<close> the
  division raises; a negative \<open>wait_time\<close> makes \<open>time.sleep\<close> raise.
\<close>

fun acquire_loop ::
  "RateLimiter \<Rightarrow> real \<Rightarrow> real \<Rightarrow> real \<Rightarrow> real list \<Rightarrow> ((exn + bool) \<times> RateLimiter \<times> clock) option"
where
  "acquire_loop rl timeout start t [] = None"
| "acquire_loop rl timeout start t (d # ds) =
     (let now = t + d; rl' = refill rl now in
      if 1 \<le> tokens rl' then Some (Inr True, rl'\<lparr>tokens := tokens rl' - 1\<rparr>, (now, ds))
      else if rpm rl' = 0 then Some (Inl (ZeroDivisionError ''float division by zero''), rl', (now, ds))
      else
        (let tokens_needed = 1 - tokens rl';
             wait_time = (tokens_needed * 60) / real_of_int (rpm rl')
         in case ds of
              [] \<Rightarrow> None
            | d2 # ds2 \<Rightarrow>
                if (now + d2) - start + wait_time > timeout
                then Some (Inr False, rl', (now + d2, ds2))
                else if wait_time < 0
                then Some (Inl (ValueError ''sleep length must be non-negative''), rl', (now + d2, ds2))
                else acquire_loop rl' timeout start (now + d2 + wait_time) ds2))"

definition acquire :: "RateLimiter \<Rightarrow> real \<Rightarrow> clock \<Rightarrow> ((exn + bool) \<times> RateLimiter \<times> clock) option" where
  "acquire rl timeout c =
     (case monotonic c of
        None \<Rightarrow> None
      | Some (start_time, c') \<Rightarrow> acquire_loop rl timeout start_time (fst c') (snd c'))"



subsection \<open>Sequences of calls on one limiter\<close>





text \<open>
  What the claim asks of one observation: the count is within \<open>[0, burst]\<close>; after a
  granted acquisition the count is at most \<open>burst - 1\<close>, that is, exactly one token was
  taken from a count that was at least 1; a reported count is within \<open>[0, burst]\<close>.
\<close>

definition within_capacity :: "RateLimiter \<Rightarrow> bool" where
  "within_capacity rl \<longleftrightarrow> 0 \<le> tokens rl \<and> tokens rl \<le> real_of_int (burst rl)"


text \<open>
  The facts that every call keeps: a positive rate, a burst of at least one token, the
  count within its bounds, and a clock that is not behind the last refill and does not
  run backwards.
\<close>

definition rl_inv :: "RateLimiter \<Rightarrow> clock \<Rightarrow> bool" where
  "rl_inv rl c \<longleftrightarrow>
     0 < rpm rl \<and> 1 \<le> burst rl \<and> within_capacity rl \<and> last_update rl \<le> fst c \<and> (\<forall>d\<in>set (snd c). 0 \<le> d)"


subsection \<open>The token count stays within the capacity\<close>


lemma acquire_loop_granted:
  "1 \<le> tokens (refill rl (t + d)) \<Longrightarrow>
   acquire_loop rl timeout start t (d # ds) =
     Some (Inr True, (refill rl (t + d))\<lparr>tokens := tokens (refill rl (t + d)) - 1\<rparr>, (t + d, ds))"
  by (simp add: Let_def)


lemma acquire_loop_wait:
  assumes "\<not> 1 \<le> tokens (refill rl (t + d))" "rpm rl \<noteq> 0"
      and "w = ((1 - tokens (refill rl (t + d))) * 60) / real_of_int (rpm rl)"
  shows "acquire_loop rl timeout start t (d # d2 # ds2) =
     (if (t + d + d2) - start + w > timeout
      then Some (Inr False, refill rl (t + d), (t + d + d2, ds2))
      else if w < 0
      then Some (Inl (ValueError ''sleep length must be non-negative''), refill rl (t + d), (t + d + d2, ds2))
      else acquire_loop (refill rl (t + d)) timeout start (t + d + d2 + w) ds2)"
proof -
  have r: "rpm (refill rl (t + d)) = rpm rl" by (simp add: refill_def)
  show ?thesis
    unfolding assms(3)
    by (simp only: acquire_loop.simps Let_def assms(1) assms(2) r list.case if_False)
qed










text \<open>
  The loop of \<open>acquire\<close> returns: after one sleep the refill reaches one token, so four
  clock readings are always enough in a sequential run.
\<close>

lemma acquire_loop_second_round:
  assumes "0 < rpm rl" "1 \<le> burst rl" "tokens rl < 1" "0 \<le> d" "0 \<le> e"
      and "w = ((1 - tokens rl) * 60) / real_of_int (rpm rl)"
  shows "1 \<le> tokens (refill rl (last_update rl + e + w + d))"
proof -
  have "w * real_of_int (rpm rl) / 60 = 1 - tokens rl"
    using assms(1) by (simp add: assms(6))
  moreover have "w * real_of_int (rpm rl) / 60 \<le> (e + w + d) * real_of_int (rpm rl) / 60"
    using assms(1,4,5) by (simp add: divide_right_mono mult_right_mono)
  ultimately have "1 \<le> tokens rl + (e + w + d) * real_of_int (rpm rl) / 60"
    by linarith
  moreover have "last_update rl + e + w + d - last_update rl = e + w + d" by simp
  ultimately have "1 \<le> tokens rl + (last_update rl + e + w + d - last_update rl) * real_of_int (rpm rl) / 60"
    by (simp only:)
  moreover have "(1::real) \<le> real_of_int (burst rl)" using assms(2) by simp
  ultimately have "1 \<le> refilled rl (last_update rl + e + w + d)"
    unfolding refilled_def by (intro min.boundedI)
  then show ?thesis by (simp add: refill_def)
qed

lemma acquire_returns:
  assumes "rl_inv rl (t, ds)" and "4 \<le> length ds"
  shows "\<exists>res. acquire rl timeout (t, ds) = Some res"
proof -
  from assms(2) obtain d0 d1 d2 d3 rest where ds: "ds = d0 # d1 # d2 # d3 # rest"
    by (cases ds; cases "tl ds"; cases "tl (tl ds)"; cases "tl (tl (tl ds))") auto
  have h: "0 < rpm rl" "1 \<le> burst rl" "within_capacity rl" "last_update rl \<le> t"
      "0 \<le> d0" "0 \<le> d1" "0 \<le> d2" "0 \<le> d3"
    using assms(1) ds by (simp_all add: rl_inv_def)
  define now where "now = t + d0 + d1"
  define rl1 where "rl1 = refill rl now"
  have acq: "acquire rl timeout (t, ds) = acquire_loop rl timeout (t + d0) (t + d0) (d1 # d2 # d3 # rest)"
    by (simp add: acquire_def ds)
  show ?thesis
  proof (cases "1 \<le> tokens rl1")
    case True
    then show ?thesis
      unfolding acq rl1_def now_def using acquire_loop_granted [of rl "t + d0" d1] by simp
  next
    case False
    have rpm_nz: "rpm rl \<noteq> 0" using h(1) by simp
    define w where "w = ((1 - tokens rl1) * 60) / real_of_int (rpm rl)"
    have w0: "0 < w" using False h(1) by (simp add: w_def)
    have eq: "acquire_loop rl timeout (t + d0) (t + d0) (d1 # d2 # d3 # rest) =
       (if (t + d0 + d1 + d2) - (t + d0) + w > timeout
        then Some (Inr False, rl1, (t + d0 + d1 + d2, d3 # rest))
        else if w < 0
        then Some (Inl (ValueError ''sleep length must be non-negative''), rl1, (t + d0 + d1 + d2, d3 # rest))
        else acquire_loop rl1 timeout (t + d0) (t + d0 + d1 + d2 + w) (d3 # rest))"
      unfolding rl1_def now_def
      by (rule acquire_loop_wait) (use False rpm_nz in \<open>simp_all add: rl1_def now_def w_def\<close>)
    have f1: "rpm rl1 = rpm rl" "burst rl1 = burst rl" "last_update rl1 = now"
      by (simp_all add: rl1_def refill_def)
    have "1 \<le> tokens (refill rl1 (last_update rl1 + d2 + w + d3))"
      by (rule acquire_loop_second_round) (use False h f1 in \<open>simp_all add: w_def\<close>)
    then have "1 \<le> tokens (refill rl1 (t + d0 + d1 + d2 + w + d3))"
      by (simp add: f1 now_def)
    then have "\<exists>res. acquire_loop rl1 timeout (t + d0) (t + d0 + d1 + d2 + w) (d3 # rest) = Some res"
      using acquire_loop_granted [of rl1 "t + d0 + d1 + d2 + w" d3] by simp
    then show ?thesis
      unfolding acq eq using w0 by auto
  qed
qed


subsection \<open>class ModelRateLimits\<close>

text \<open>The dictionary \<open>TIER_1_LIMITS\<close>, in the order of its items.\<close>

definition TIER_1_LIMITS :: "(string \<times> int) list" where
  "TIER_1_LIMITS =
     [(''gemini-2.5-pro'', 150),
      (''gemini-2.5-flash'', 1000),
      (''gemini-2.0-flash'', 2000),
      (''gemini-2.0-flash-lite'', 4000)]"

definition DEFAULT_LIMIT :: int where
  "DEFAULT_LIMIT = 100"

definition DEFAULT_CANONICAL_KEY :: string where
  "DEFAULT_CANONICAL_KEY = ''default_unknown_model''"

text \<open>
  \<open>str.lower()\<close> on the ASCII letters; every other character is left as it is.
\<close>

definition lower_char :: "char \<Rightarrow> char" where
  "lower_char c =
     (case map_of (zip ''ABCDEFGHIJKLMNOPQRSTUVWXYZ'' ''abcdefghijklmnopqrstuvwxyz'') c of
        None \<Rightarrow> c
      | Some l \<Rightarrow> l)"

definition lower :: "string \<Rightarrow> string" where
  "lower s = map lower_char s"

text \<open>
  \<open>sorted(items, key=len of the name, reverse=True)\<close>: longest names first, and names
  of one length in the order of the dictionary (the sort is stable).
\<close>

definition sorted_prefixes :: "(string \<times> int) list" where
  "sorted_prefixes = sort_key (\<lambda>item. - int (length (fst item))) TIER_1_LIMITS"

definition get_rpm_and_prefix :: "string \<Rightarrow> string \<Rightarrow> exn + (int \<times> string)" where
  "get_rpm_and_prefix model_name tier =
     (if tier \<noteq> ''tier1'' then Inl (ValueError (''Unsupported tier: '' @ tier))
      else
        (let model_lower = lower model_name in
         case map_of TIER_1_LIMITS model_lower of
           Some limit \<Rightarrow> Inr (limit, model_lower)
         | None \<Rightarrow>
             (case find (\<lambda>item. startswith model_lower (fst item)) sorted_prefixes of
                Some (model_prefix, limit) \<Rightarrow> Inr (limit, model_prefix)
              | None \<Rightarrow> Inr (DEFAULT_LIMIT, DEFAULT_CANONICAL_KEY))))"


subsection \<open>class RateLimitManager\<close>

text \<open>
  The manager's dictionary holds references to limiter objects. The objects live in a
  store, a reference is a position in it, and two references denote the identical
  instance exactly when they are equal. The last argument of \<open>get_limiter\<close> is the
  clock reading that the constructor takes when a limiter is built.
\<close>

record RateLimitManager =
  limiters :: "string \<rightharpoonup> nat"
  objects :: "RateLimiter list"

definition RateLimitManager_init :: RateLimitManager where
  "RateLimitManager_init = \<lparr>limiters = Map.empty, objects = []\<rparr>"

definition get_limiter ::
  "RateLimitManager \<Rightarrow> string \<Rightarrow> string \<Rightarrow> real \<Rightarrow> exn + (nat \<times> RateLimitManager)"
where
  "get_limiter m model_name tier t =
     (case get_rpm_and_prefix model_name tier of
        Inl e \<Rightarrow> Inl e
      | Inr (r, canonical_model) \<Rightarrow>
          (let key = tier @ '':'' @ canonical_model in
           case limiters m key of
             None \<Rightarrow>
               Inr (length (objects m),
                    m\<lparr>limiters := (limiters m)(key \<mapsto> length (objects m)),
                      objects := objects m @ [RateLimiter_init r None t]\<rparr>)
           | Some ref \<Rightarrow> Inr (ref, m)))"

text \<open>A sequence of \<open>get_limiter(model_name)\<close> calls with the default tier.\<close>

fun get_limiters ::
  "RateLimitManager \<Rightarrow> (string \<times> real) list \<Rightarrow> exn + (nat list \<times> RateLimitManager)"
where
  "get_limiters m [] = Inr ([], m)"
| "get_limiters m ((n, t) # cs) =
     (case get_limiter m n ''tier1'' t of
        Inl e \<Rightarrow> Inl e
      | Inr (a, m') \<Rightarrow>
          (case get_limiters m' cs of
             Inl e \<Rightarrow> Inl e
           | Inr (as, m'') \<Rightarrow> Inr (a # as, m'')))"

text \<open>The canonical name that \<open>get_rpm_and_prefix\<close> gives a model in tier 1.\<close>

definition canonical_model :: "string \<Rightarrow> string" where
  "canonical_model n =
     (case get_rpm_and_prefix n ''tier1'' of
        Inl e \<Rightarrow> []
      | Inr (r, canonical) \<Rightarrow> canonical)"

text \<open>
  Every reference of the dictionary points into the store, and no two keys share a
  reference.
\<close>

definition manager_inv :: "RateLimitManager \<Rightarrow> bool" where
  "manager_inv m \<longleftrightarrow>
     (\<forall>k a. limiters m k = Some a \<longrightarrow> a < length (objects m)) \<and>
     (\<forall>k k' a. limiters m k = Some a \<longrightarrow> limiters m k' = Some a \<longrightarrow> k = k')"

subsection \<open>One limiter per canonical key\<close>

lemma get_rpm_and_prefix_tier1:
  "\<exists>r. get_rpm_and_prefix n ''tier1'' = Inr (r, canonical_model n)"
  by (auto simp: get_rpm_and_prefix_def canonical_model_def Let_def split: option.splits)

lemma get_limiter_tier1:
  assumes "manager_inv m"
  shows "\<exists>a m'. get_limiter m n ''tier1'' t = Inr (a, m') \<and> manager_inv m' \<and>
           limiters m' (''tier1:'' @ canonical_model n) = Some a \<and>
           (\<forall>k b. limiters m k = Some b \<longrightarrow> limiters m' k = Some b)"
proof -
  obtain r where g: "get_rpm_and_prefix n ''tier1'' = Inr (r, canonical_model n)"
    using get_rpm_and_prefix_tier1 by blast
  define key where "key = ''tier1:'' @ canonical_model n"
  show ?thesis
  proof (cases "limiters m key")
    case None
    have eq: "get_limiter m n ''tier1'' t =
        Inr (length (objects m),
             m\<lparr>limiters := (limiters m)(key \<mapsto> length (objects m)),
               objects := objects m @ [RateLimiter_init r None t]\<rparr>)"
      using None by (simp add: get_limiter_def g key_def Let_def)
    have fresh: "\<forall>k. limiters m k \<noteq> Some (length (objects m))"
      using assms unfolding manager_inv_def by fastforce
    have "manager_inv (m\<lparr>limiters := (limiters m)(key \<mapsto> length (objects m)),
               objects := objects m @ [RateLimiter_init r None t]\<rparr>)"
      using assms fresh unfolding manager_inv_def
      by (auto simp: less_Suc_eq split: if_splits)
    moreover have "\<forall>k b. limiters m k = Some b \<longrightarrow>
        ((limiters m)(key \<mapsto> length (objects m))) k = Some b"
      using None by auto
    ultimately show ?thesis
      unfolding eq key_def [symmetric] by simp
  next
    case (Some ref)
    then have "get_limiter m n ''tier1'' t = Inr (ref, m)"
      by (simp add: get_limiter_def g key_def Let_def)
    with Some assms show ?thesis by (simp add: key_def)
  qed
qed

lemma get_limiters_tier1:
  assumes "manager_inv m"
  shows "\<exists>as m'. get_limiters m cs = Inr (as, m') \<and> manager_inv m' \<and> length as = length cs \<and>
           (\<forall>i<length cs. limiters m' (''tier1:'' @ canonical_model (fst (cs ! i))) = Some (as ! i)) \<and>
           (\<forall>k b. limiters m k = Some b \<longrightarrow> limiters m' k = Some b)"
  using assms
proof (induction cs arbitrary: m)
  case Nil
  then show ?case by simp
next
  case (Cons c cs)
  obtain n t where c: "c = (n, t)" by (cases c)
  from get_limiter_tier1 [OF Cons.prems, of n t] obtain a m1 where
    g: "get_limiter m n ''tier1'' t = Inr (a, m1)" and i1: "manager_inv m1"
    and k1: "limiters m1 (''tier1:'' @ canonical_model n) = Some a"
    and mono1: "\<forall>k b. limiters m k = Some b \<longrightarrow> limiters m1 k = Some b"
    by blast
  from Cons.IH [OF i1] obtain as m2 where
    r: "get_limiters m1 cs = Inr (as, m2)" and i2: "manager_inv m2" and len: "length as = length cs"
    and ks: "\<forall>i<length cs. limiters m2 (''tier1:'' @ canonical_model (fst (cs ! i))) = Some (as ! i)"
    and mono2: "\<forall>k b. limiters m1 k = Some b \<longrightarrow> limiters m2 k = Some b"
    by blast
  have run: "get_limiters m (c # cs) = Inr (a # as, m2)"
    by (simp add: c g r)
  have head: "limiters m2 (''tier1:'' @ canonical_model n) = Some a"
    using k1 mono2 by blast
  have all: "\<forall>i<length (c # cs).
      limiters m2 (''tier1:'' @ canonical_model (fst ((c # cs) ! i))) = Some ((a # as) ! i)"
  proof (intro allI impI)
    fix i assume "i < length (c # cs)"
    then show "limiters m2 (''tier1:'' @ canonical_model (fst ((c # cs) ! i))) = Some ((a # as) ! i)"
      using head ks c by (cases i) simp_all
  qed
  have mono: "\<forall>k b. limiters m k = Some b \<longrightarrow> limiters m2 k = Some b"
    using mono1 mono2 by blast
  show ?case
    using run i2 len all mono by (intro exI [of _ "a # as"] exI [of _ m2]) simp
qed

lemma manager_inv_init: "manager_inv RateLimitManager_init"
  by (simp add: manager_inv_def RateLimitManager_init_def)

lemma canonical_examples:
  "canonical_model ''gemini-2.5-pro'' = ''gemini-2.5-pro''"
  "canonical_model ''gemini-2.5-pro-001'' = ''gemini-2.5-pro''"
  "canonical_model ''gemini-2.5-pro-latest'' = ''gemini-2.5-pro''"
  "canonical_model ''totally-unknown-model-a'' = DEFAULT_CANONICAL_KEY"
  "canonical_model ''totally-unknown-model-b'' = DEFAULT_CANONICAL_KEY"
  "DEFAULT_CANONICAL_KEY \<noteq> ''gemini-2.5-pro''"
  by (simp_all add: canonical_model_def get_rpm_and_prefix_def sorted_prefixes_def lower_def
      lower_char_def TIER_1_LIMITS_def startswith_def DEFAULT_CANONICAL_KEY_def)

lemma canonical_unknown:
  assumes "\<forall>p \<in> fst ` set TIER_1_LIMITS. \<not> startswith (lower n) p"
  shows "canonical_model n = DEFAULT_CANONICAL_KEY"
proof -
  have a: "map_of TIER_1_LIMITS (lower n) = None"
  proof (cases "map_of TIER_1_LIMITS (lower n)")
    case (Some l)
    then have "(lower n, l) \<in> set TIER_1_LIMITS" by (rule map_of_SomeD)
    then have "lower n \<in> fst ` set TIER_1_LIMITS" by force
    with assms have "\<not> startswith (lower n) (lower n)" by blast
    then show ?thesis by (simp add: startswith_def)
  qed simp
  have "set sorted_prefixes = set TIER_1_LIMITS" by (simp add: sorted_prefixes_def)
  then have b: "find (\<lambda>item. startswith (lower n) (fst item)) sorted_prefixes = None"
    using assms by (auto simp: find_None_iff)
  show ?thesis by (simp add: canonical_model_def get_rpm_and_prefix_def a b)
qed

text \<open>
  Claim C6. Over any sequence of \<open>get_limiter\<close> calls on a fresh manager, two calls
  return the identical limiter exactly when their model names have the same canonical
  key, so one key yields one instance for the manager's lifetime.
  \<open>gemini-2.5-pro\<close>, \<open>gemini-2.5-pro-001\<close> and \<open>gemini-2.5-pro-latest\<close> have one
  canonical key; the two unknown names, and every name that starts with no known
  prefix, have the default key, which is not the key of \<open>gemini-2.5-pro\<close>.
\<close>

theorem canonical_key_collapsing:
  "(\<exists>as m. get_limiters RateLimitManager_init cs = Inr (as, m) \<and> length as = length cs \<and>
       (\<forall>i<length cs. \<forall>j<length cs.
          (as ! i = as ! j) = (canonical_model (fst (cs ! i)) = canonical_model (fst (cs ! j))))) \<and>
   canonical_model ''gemini-2.5-pro-001'' = canonical_model ''gemini-2.5-pro'' \<and>
   canonical_model ''gemini-2.5-pro-latest'' = canonical_model ''gemini-2.5-pro'' \<and>
   canonical_model ''totally-unknown-model-a'' = DEFAULT_CANONICAL_KEY \<and>
   canonical_model ''totally-unknown-model-b'' = DEFAULT_CANONICAL_KEY \<and>
   ((\<forall>p \<in> fst ` set TIER_1_LIMITS. \<not> startswith (lower n) p) \<longrightarrow>
       canonical_model n = DEFAULT_CANONICAL_KEY) \<and>
   canonical_model ''gemini-2.5-pro'' \<noteq> DEFAULT_CANONICAL_KEY"
proof -
  from get_limiters_tier1 [OF manager_inv_init, of cs] obtain as m where
    run: "get_limiters RateLimitManager_init cs = Inr (as, m)" and inv: "manager_inv m"
    and len: "length as = length cs"
    and ks: "\<forall>i<length cs. limiters m (''tier1:'' @ canonical_model (fst (cs ! i))) = Some (as ! i)"
    by blast
  have same: "\<forall>i<length cs. \<forall>j<length cs.
      (as ! i = as ! j) = (canonical_model (fst (cs ! i)) = canonical_model (fst (cs ! j)))"
  proof (intro allI impI)
    fix i j assume i: "i < length cs" and j: "j < length cs"
    from ks i have ki: "limiters m (''tier1:'' @ canonical_model (fst (cs ! i))) = Some (as ! i)" by blast
    from ks j have kj: "limiters m (''tier1:'' @ canonical_model (fst (cs ! j))) = Some (as ! j)" by blast
    show "(as ! i = as ! j) = (canonical_model (fst (cs ! i)) = canonical_model (fst (cs ! j)))"
    proof
      assume "as ! i = as ! j"
      with ki kj inv have "''tier1:'' @ canonical_model (fst (cs ! i)) = ''tier1:'' @ canonical_model (fst (cs ! j))"
        unfolding manager_inv_def by metis
      then show "canonical_model (fst (cs ! i)) = canonical_model (fst (cs ! j))" by simp
    next
      assume "canonical_model (fst (cs ! i)) = canonical_model (fst (cs ! j))"
      with ki kj show "as ! i = as ! j" by simp
    qed
  qed
  show ?thesis
    using run len same canonical_examples canonical_unknown [of n] by auto
qed


theorem canonical_key_collapsing_witness:
  "(\<exists>as m. get_limiters RateLimitManager_init
        [(''gemini-2.5-pro'', 0), (''totally-unknown-model-a'', 1), (''gemini-2.5-pro-001'', 2),
         (''totally-unknown-model-b'', 3), (''gemini-2.5-pro-latest'', 4)] = Inr (as, m) \<and>
      as ! 0 = as ! 2 \<and> as ! 2 = as ! 4 \<and> as ! 1 = as ! 3 \<and> as ! 0 \<noteq> as ! 1) \<and>
   canonical_model ''some-other-model'' = DEFAULT_CANONICAL_KEY"
proof -
  let ?cs = "[(''gemini-2.5-pro'', 0::real), (''totally-unknown-model-a'', 1), (''gemini-2.5-pro-001'', 2),
         (''totally-unknown-model-b'', 3), (''gemini-2.5-pro-latest'', 4)]"
  have unknown: "\<forall>p \<in> fst ` set TIER_1_LIMITS. \<not> startswith (lower ''some-other-model'') p"
    by (simp add: TIER_1_LIMITS_def startswith_def lower_def lower_char_def)
  from canonical_key_collapsing [of ?cs "''some-other-model''"] obtain as m where
    run: "get_limiters RateLimitManager_init ?cs = Inr (as, m)"
    and same: "\<forall>i<length ?cs. \<forall>j<length ?cs.
          (as ! i = as ! j) = (canonical_model (fst (?cs ! i)) = canonical_model (fst (?cs ! j)))"
    and pro1: "canonical_model ''gemini-2.5-pro-001'' = canonical_model ''gemini-2.5-pro''"
    and pro2: "canonical_model ''gemini-2.5-pro-latest'' = canonical_model ''gemini-2.5-pro''"
    and ua: "canonical_model ''totally-unknown-model-a'' = DEFAULT_CANONICAL_KEY"
    and ub: "canonical_model ''totally-unknown-model-b'' = DEFAULT_CANONICAL_KEY"
    and other: "(\<forall>p \<in> fst ` set TIER_1_LIMITS. \<not> startswith (lower ''some-other-model'') p) \<longrightarrow>
       canonical_model ''some-other-model'' = DEFAULT_CANONICAL_KEY"
    and ne: "canonical_model ''gemini-2.5-pro'' \<noteq> DEFAULT_CANONICAL_KEY"
    by blast
  have "as ! 0 = as ! 2" using same [rule_format, of 0 2] pro1 by simp
  moreover have "as ! 2 = as ! 4" using same [rule_format, of 2 4] pro1 pro2 by simp
  moreover have "as ! 1 = as ! 3" using same [rule_format, of 1 3] ua ub by simp
  moreover have "as ! 0 \<noteq> as ! 1" using same [rule_format, of 0 1] ua ne by simp
  ultimately show ?thesis using run other unknown by blast
qed

section \<open>Paths and the file system\<close>

text \<open>
  What the program uses of \<open>pathlib\<close> on a POSIX system. A path is a flag (absolute
  or not) and its components; parsing a string drops empty components and \<open>.\<close>.
  The file system of the model has directories and regular files and no symbolic links,
  so \<open>resolve()\<close> makes the path absolute and removes each \<open>..\<close> together with the
  component before it.
\<close>

fun split_on :: "char \<Rightarrow> string \<Rightarrow> string list" where
  "split_on sep [] = [[]]"
| "split_on sep (c # cs) =
     (if c = sep then [] # split_on sep cs
      else (case split_on sep cs of
              [] \<Rightarrow> [[c]]
            | w # ws \<Rightarrow> (c # w) # ws))"

record path =
  absolute :: bool
  parts :: "string list"

definition Path :: "string \<Rightarrow> path" where
  "Path s = \<lparr>absolute = startswith s ''/'',
            parts = filter (\<lambda>p. p \<noteq> [] \<and> p \<noteq> ''.'') (split_on (CHR ''/'') s)\<rparr>"

text \<open>\<open>a / b\<close>: an absolute right operand replaces the left one.\<close>

definition joinpath :: "path \<Rightarrow> string \<Rightarrow> path" where
  "joinpath a s =
     (if absolute (Path s) then Path s
      else \<lparr>absolute = absolute a, parts = parts a @ parts (Path s)\<rparr>)"

datatype file_data = Text string | Binary | Unreadable string

datatype node = File file_data | Dir

record filesystem =
  cwd :: "string list"
  nodes :: "string list \<rightharpoonup> node"

definition lookup :: "filesystem \<Rightarrow> string list \<Rightarrow> node option" where
  "lookup fs p = (if p = [] then Some Dir else nodes fs p)"

fun normalize :: "string list \<Rightarrow> string list \<Rightarrow> string list" where
  "normalize acc [] = acc"
| "normalize acc (c # cs) =
     (if c = ''..'' then normalize (butlast acc) cs else normalize (acc @ [c]) cs)"

definition has_nul :: "path \<Rightarrow> bool" where
  "has_nul p = list_ex (\<lambda>c. CHR 0x00 \<in> set c) (parts p)"

text \<open>
  \<open>Path.resolve()\<close>, as the absolute component list of the result. A path with a NUL
  character makes the call raise \<open>ValueError\<close>.
\<close>

definition resolve :: "filesystem \<Rightarrow> path \<Rightarrow> exn + string list" where
  "resolve fs p =
     (if has_nul p then Inl (ValueError ''embedded null byte'')
      else Inr (normalize (if absolute p then [] else cwd fs) (parts p)))"

text \<open>\<open>str\<close> of an absolute path.\<close>

fun join_with :: "string \<Rightarrow> string list \<Rightarrow> string" where
  "join_with sep [] = []"
| "join_with sep [x] = x"
| "join_with sep (x # y # ys) = x @ sep @ join_with sep (y # ys)"

definition str_abs :: "string list \<Rightarrow> string" where
  "str_abs comps = ''/'' @ join_with ''/'' comps"

section \<open>Navigation tools (\<open>reviewer/navigation_tools.py\<close>)\<close>

record Symbol =
  name :: string
  type :: string
  file_path :: string
  line_number :: int
  parent :: "string option"

datatype FileNode = FileNode (node_name: string) (children: "FileNode list")

text \<open>
  The index that the indexer hands to the tools, with the parts of it that the tools
  read. Its dictionary \<open>imports\<close> is the field \<open>file_imports\<close>.
\<close>

record CodebaseIndex =
  file_tree :: FileNode
  symbols :: "string \<rightharpoonup> Symbol list"
  file_imports :: "string \<rightharpoonup> string list"

record NavigationTools =
  repo_path :: string
  index :: CodebaseIndex
  file_cache :: "string \<rightharpoonup> string"

definition read_file :: "filesystem \<Rightarrow> NavigationTools \<Rightarrow> string \<Rightarrow> string \<times> NavigationTools" where
  "read_file fs nt filepath =
     (case file_cache nt filepath of
        Some cached \<Rightarrow> (cached, nt)
      | None \<Rightarrow>
          (case resolve fs (joinpath (Path (repo_path nt)) filepath) of
             Inl e \<Rightarrow> (''Error: Invalid path: '' @ filepath, nt)
           | Inr full_path \<Rightarrow>
               (case resolve fs (Path (repo_path nt)) of
                  Inl e \<Rightarrow> (''Error: Invalid path: '' @ filepath, nt)
                | Inr repo_root \<Rightarrow>
                    if \<not> startswith (str_abs full_path) (str_abs repo_root)
                    then (''Error: Access denied - path outside repository: '' @ filepath, nt)
                    else
                      (case lookup fs full_path of
                         None \<Rightarrow> (''Error: File not found: '' @ filepath, nt)
                       | Some Dir \<Rightarrow> (''Error: Not a file: '' @ filepath, nt)
                       | Some (File (Text content)) \<Rightarrow>
                           (content, nt\<lparr>file_cache := (file_cache nt)(filepath \<mapsto> content)\<rparr>)
                       | Some (File Binary) \<Rightarrow> (''Error: Cannot read binary file: '' @ filepath, nt)
                       | Some (File (Unreadable msg)) \<Rightarrow> (''Error reading file: '' @ msg, nt)))))"


definition search_symbol :: "NavigationTools \<Rightarrow> string \<Rightarrow> Symbol list" where
  "search_symbol nt symbol_name =
     (case symbols (index nt) symbol_name of
        None \<Rightarrow> []
      | Some found \<Rightarrow> found)"

text \<open>
  One match of a text search: the dictionary with \<open>file\<close>, \<open>line\<close> and \<open>content\<close>, or
  the dictionary with \<open>error\<close> that a timed-out search returns.
\<close>

datatype usage = Usage string int string | UsageError string

text \<open>
  What lies outside the program: the file system, the external search processes
  (\<open>rg\<close>, with \<open>grep\<close> as fallback) together with the parsing of their output, and the
  regular expressions that pick import statements out of a file's text. A search is
  given the repository path and its arguments and yields the parsed matches, or the
  exception that the subprocess call raised.
\<close>

record nav_env =
  file_system :: filesystem
  usages_search :: "string \<Rightarrow> string \<Rightarrow> exn + usage list"
  text_search :: "string \<Rightarrow> string \<Rightarrow> string option \<Rightarrow> exn + usage list"
  python_imports :: "string \<Rightarrow> string list"
  javascript_imports :: "string \<Rightarrow> string list"

definition find_usages :: "nav_env \<Rightarrow> NavigationTools \<Rightarrow> string \<Rightarrow> exn + usage list" where
  "find_usages env nt symbol_name =
     (case usages_search env (repo_path nt) symbol_name of
        Inl e \<Rightarrow> Inl e
      | Inr results \<Rightarrow> Inr (take 100 results))"

definition search_text ::
  "nav_env \<Rightarrow> NavigationTools \<Rightarrow> string \<Rightarrow> string option \<Rightarrow> exn + usage list" where
  "search_text env nt pattern file_pattern = text_search env (repo_path nt) pattern file_pattern"

definition endswith :: "string \<Rightarrow> string \<Rightarrow> bool" where
  "endswith s e = (length e \<le> length s \<and> drop (length s - length e) s = e)"

text \<open>
  \<open>get_imports\<close>. \<open>list(set(imports))\<close> removes duplicates; the order of the result is
  the order of first occurrence here.
\<close>

definition get_imports :: "nav_env \<Rightarrow> NavigationTools \<Rightarrow> string \<Rightarrow> string list \<times> NavigationTools" where
  "get_imports env nt filepath =
     (case file_imports (index nt) filepath of
        Some found \<Rightarrow> (found, nt)
      | None \<Rightarrow>
          (let (content, nt') = read_file (file_system env) nt filepath in
           if startswith content ''Error:'' then ([], nt')
           else if endswith filepath ''.py'' then (remdups (python_imports env content), nt')
           else if list_ex (endswith filepath) [''.js'', ''.ts'', ''.jsx'', ''.tsx'']
           then (remdups (javascript_imports env content), nt')
           else ([], nt')))"

text \<open>
  \<open>get_file_tree\<close>. The connectors are the UTF-8 bytes of the box-drawing strings of
  the source.
\<close>

definition connector_last :: string where
  "connector_last = [CHR 0xE2, CHR 0x94, CHR 0x94, CHR 0xE2, CHR 0x94, CHR 0x80, CHR 0xE2, CHR 0x94, CHR 0x80, CHR '' '']"

definition connector_inner :: string where
  "connector_inner = [CHR 0xE2, CHR 0x94, CHR 0x9C, CHR 0xE2, CHR 0x94, CHR 0x80, CHR 0xE2, CHR 0x94, CHR 0x80, CHR '' '']"

definition extension_inner :: string where
  "extension_inner = [CHR 0xE2, CHR 0x94, CHR 0x82, CHR '' '', CHR '' '', CHR '' '']"

fun build_tree_string :: "FileNode \<Rightarrow> string \<Rightarrow> bool \<Rightarrow> string list"
  and build_children :: "FileNode list \<Rightarrow> string \<Rightarrow> string list"
where
  "build_tree_string (FileNode nm chs) pre is_last =
     (pre @ (if is_last then connector_last else connector_inner) @ nm) #
       build_children chs (pre @ (if is_last then ''    '' else extension_inner))"
| "build_children [] pre = []"
| "build_children (c # cs) pre =
     build_tree_string c pre (cs = []) @ build_children cs pre"

definition get_file_tree :: "NavigationTools \<Rightarrow> string" where
  "get_file_tree nt =
     join_with [CHR 0x0A]
       (node_name (file_tree (index nt)) # build_children (children (file_tree (index nt))) [])"

text \<open>A path is inside a directory when the directory's components begin it.\<close>

definition descendant_of :: "string list \<Rightarrow> string list \<Rightarrow> bool" where
  "descendant_of p d = (take (length d) p = d)"

text \<open>
  A repository at \<open>/tmp/repo\<close> beside a directory \<open>/tmp/repo-evil\<close>, and a tool set
  with an empty index and an empty cache.
\<close>

definition sibling_fs :: filesystem where
  "sibling_fs =
     \<lparr>cwd = [],
      nodes = [[''tmp''] \<mapsto> Dir,
               [''tmp'', ''repo''] \<mapsto> Dir,
               [''tmp'', ''repo'', ''main.py''] \<mapsto> File (Text ''import os''),
               [''tmp'', ''repo-evil''] \<mapsto> Dir,
               [''tmp'', ''repo-evil'', ''secret.txt''] \<mapsto> File (Text ''TOP SECRET'')]\<rparr>"

definition empty_index :: CodebaseIndex where
  "empty_index = \<lparr>file_tree = FileNode ''repo'' [], symbols = Map.empty, file_imports = Map.empty\<rparr>"

definition sibling_tools :: NavigationTools where
  "sibling_tools = \<lparr>repo_path = ''/tmp/repo'', index = empty_index, file_cache = Map.empty\<rparr>"


text \<open>
  A repository whose file \<open>notes.py\<close> begins with the text \<open>Error:\<close> and imports
  \<open>os\<close> on its second line.
\<close>

definition notes_fs :: filesystem where
  "notes_fs =
     \<lparr>cwd = [],
      nodes = [[''tmp''] \<mapsto> Dir,
               [''tmp'', ''repo''] \<mapsto> Dir,
               [''tmp'', ''repo'', ''notes.py''] \<mapsto>
                  File (Text (''Error: see the log'' @ [CHR 0x0A] @ ''import os''))]\<rparr>"

definition notes_env :: nav_env where
  "notes_env =
     \<lparr>file_system = notes_fs,
      usages_search = (\<lambda>repo symbol_name. Inr []),
      text_search = (\<lambda>repo pattern file_pattern. Inr []),
      python_imports = (\<lambda>content. [''os'']),
      javascript_imports = (\<lambda>content. [])\<rparr>"


subsection \<open>The containment check of \<open>read_file\<close>\<close>

lemma read_file_denied:
  assumes "file_cache nt filepath = None"
      and "resolve fs (joinpath (Path (repo_path nt)) filepath) = Inr full_path"
      and "resolve fs (Path (repo_path nt)) = Inr repo_root"
      and "\<not> startswith (str_abs full_path) (str_abs repo_root)"
  shows "read_file fs nt filepath =
           (''Error: Access denied - path outside repository: '' @ filepath, nt)"
  using assms by (simp add: read_file_def)

text \<open>
  Claim C1. The check compares the two paths as strings. With the repository at
  \<open>/tmp/repo\<close>, the path \<open>../repo-evil/secret.txt\<close> resolves to
  \<open>/tmp/repo-evil/secret.txt\<close>, which is in a sibling directory and not below the
  root, and its string starts with \<open>/tmp/repo\<close>: \<open>read_file\<close> returns the content of
  the file.
\<close>

theorem read_file_sibling_directory_escapes:
  "resolve sibling_fs (Path (repo_path sibling_tools)) = Inr [''tmp'', ''repo''] \<and>
   resolve sibling_fs (joinpath (Path (repo_path sibling_tools)) ''../repo-evil/secret.txt'')
     = Inr [''tmp'', ''repo-evil'', ''secret.txt''] \<and>
   \<not> descendant_of [''tmp'', ''repo-evil'', ''secret.txt''] [''tmp'', ''repo''] \<and>
   fst (read_file sibling_fs sibling_tools ''../repo-evil/secret.txt'') = ''TOP SECRET''"
  by (simp add: read_file_def resolve_def joinpath_def Path_def has_nul_def startswith_def
      str_abs_def lookup_def descendant_of_def sibling_fs_def sibling_tools_def)


subsection \<open>In-band errors and \<open>get_imports\<close>\<close>

text \<open>
  Claim C10. For a file that the import index does not list, \<open>get_imports\<close> returns
  the empty list whenever the result of \<open>read_file\<close> starts with \<open>Error:\<close>, whether
  that result is an error message or the text of a readable file.
\<close>

theorem get_imports_error_prefix:
  assumes "file_imports (index nt) filepath = None"
      and "startswith (fst (read_file (file_system env) nt filepath)) ''Error:''"
  shows "fst (get_imports env nt filepath) = []"
  using assms by (simp add: get_imports_def split_beta)

theorem get_imports_error_prefix_witness:
  "file_imports (index sibling_tools) ''notes.py'' = None \<and>
   fst (read_file (file_system notes_env) sibling_tools ''notes.py'')
     = ''Error: see the log'' @ [CHR 0x0A] @ ''import os'' \<and>
   lookup notes_fs [''tmp'', ''repo'', ''notes.py'']
     = Some (File (Text (''Error: see the log'' @ [CHR 0x0A] @ ''import os''))) \<and>
   python_imports notes_env (''Error: see the log'' @ [CHR 0x0A] @ ''import os'') = [''os''] \<and>
   fst (get_imports notes_env sibling_tools ''notes.py'') = []"
proof -
  have a: "file_imports (index sibling_tools) ''notes.py'' = None"
    by (simp add: sibling_tools_def empty_index_def)
  have b: "fst (read_file (file_system notes_env) sibling_tools ''notes.py'')
     = ''Error: see the log'' @ [CHR 0x0A] @ ''import os''"
    by (simp add: read_file_def resolve_def joinpath_def Path_def has_nul_def startswith_def
        str_abs_def lookup_def notes_env_def notes_fs_def sibling_tools_def)
  have c: "startswith (fst (read_file (file_system notes_env) sibling_tools ''notes.py'')) ''Error:''"
    unfolding b by (simp add: startswith_def)
  have d: "lookup notes_fs [''tmp'', ''repo'', ''notes.py'']
     = Some (File (Text (''Error: see the log'' @ [CHR 0x0A] @ ''import os'')))"
    by (simp add: lookup_def notes_fs_def)
  have e: "python_imports notes_env (''Error: see the log'' @ [CHR 0x0A] @ ''import os'') = [''os'']"
    by (simp add: notes_env_def)
  from get_imports_error_prefix [OF a c] a b d e show ?thesis by simp
qed

section \<open>Gemini client (\<open>reviewer/gemini_client.py\<close>)\<close>

subsection \<open>Messages, responses and the reasoning agent\<close>

text \<open>
  A tool call names a function and carries a dictionary of keyword arguments (an
  association list with distinct keys; the values are strings).
\<close>

type_synonym args = "(string \<times> string) list"

record function_call =
  fc_name :: string
  fc_args :: args

datatype tool_value =
    VStr string
  | VSymbols "Symbol list"
  | VUsages "usage list"
  | VStrs "string list"

text \<open>The dictionary \<open>{'result': r}\<close> or \<open>{'error': str(e)}\<close>.\<close>

datatype tool_response = Result tool_value | Error string

record function_response =
  fr_name :: string
  fr_response :: tool_response

datatype message = TextMessage string | FunctionResponses "function_response list"

record UsageMetadata =
  prompt_token_count :: "int option"
  candidates_token_count :: "int option"
  total_token_count :: "int option"

text \<open>
  A response of the agent. An attribute can be missing (\<open>hasattr\<close> is false), can be
  \<open>None\<close>, or can hold a value. For \<open>function_calls\<close> the source treats a missing
  attribute, \<open>None\<close> and the empty list alike, so \<open>None\<close> stands for the first two. A
  candidate is its list of parts, or \<open>None\<close> when its content has no parts; a part is
  its text, or \<open>None\<close> when it has none. The attribute \<open>text\<close> is the field
  \<open>text_of\<close>.
\<close>

datatype usage_attr = NoUsageAttr | UsageNone | UsageOf UsageMetadata

datatype text_attr = NoTextAttr | TextOf "string option"

record response =
  usage_metadata :: usage_attr
  function_calls :: "function_call list option"
  text_of :: text_attr
  candidates :: "string option list option list"

text \<open>
  The reasoning agent is outside the program. A conversation is the script of the
  responses that the agent gives, in order, and the log of the messages sent to it.
  A call of the agent that fails is the end of the script: \<open>send_message\<close> raises.
\<close>

record chat =
  script :: "response list"
  sent :: "message list"

definition send_message :: "chat \<Rightarrow> message \<Rightarrow> exn + (response \<times> chat)" where
  "send_message c m =
     (case script c of
        [] \<Rightarrow> Inl StopIteration
      | r # rs \<Rightarrow> Inr (r, \<lparr>script = rs, sent = sent c @ [m]\<rparr>))"

subsection \<open>The client and its environment\<close>

text \<open>
  The environment of a client: the environment of the navigation tools, the conversation
  that \<open>client.chats.create\<close> opens, the \<open>acquire(timeout)\<close> method of the client's rate
  limiter (on a limiter state of any type), \<open>str\<close> of a tool's result, and the text of
  the \<open>TypeError\<close> that Python raises when a call does not fit a function's parameters.
  The client's attribute \<open>chat\<close> is the field \<open>client_chat\<close>.
\<close>

record 'l client_env =
  nav :: nav_env
  new_chat :: chat
  acquire_fn :: "real \<Rightarrow> 'l \<Rightarrow> bool \<times> 'l"
  str_value :: "tool_value \<Rightarrow> string"
  type_error :: "string \<Rightarrow> args \<Rightarrow> string"

record 'l GeminiClient =
  model_name :: string
  navigation_tools :: "NavigationTools option"
  client_chat :: "chat option"
  enable_rate_limiting :: bool
  rate_limiter :: 'l

subsection \<open>\<open>_execute_function\<close>\<close>

definition function_map :: "string list" where
  "function_map =
     [''read_file'', ''search_symbol'', ''find_usages'', ''get_imports'', ''get_file_tree'',
      ''search_text'']"

text \<open>
  \<open>func(**args)\<close> binds when every key is a parameter and every required parameter
  is a key.
\<close>

definition binds :: "string list \<Rightarrow> string list \<Rightarrow> args \<Rightarrow> bool" where
  "binds required optional a \<longleftrightarrow>
     list_all (\<lambda>k. k \<in> set (required @ optional)) (map fst a) \<and>
     list_all (\<lambda>k. k \<in> set (map fst a)) required"

definition execute_function ::
  "'l client_env \<Rightarrow> NavigationTools option \<Rightarrow> string \<Rightarrow> args
     \<Rightarrow> (exn + tool_value) \<times> NavigationTools option"
where
  "execute_function env tools function_name a =
     (case tools of
        None \<Rightarrow> (Inl (ValueError ''Navigation tools not set up''), tools)
      | Some nt \<Rightarrow>
          if function_name \<notin> set function_map
          then (Inl (ValueError (''Unknown function: '' @ function_name)), tools)
          else if function_name = ''read_file'' then
            (case map_of a ''filepath'' of
               Some filepath \<Rightarrow>
                 if binds [''filepath''] [] a
                 then (let (content, nt') = read_file (file_system (nav env)) nt filepath
                       in (Inr (VStr content), Some nt'))
                 else (Inl (TypeError (type_error env function_name a)), tools)
             | None \<Rightarrow> (Inl (TypeError (type_error env function_name a)), tools))
          else if function_name = ''search_symbol'' then
            (case map_of a ''symbol_name'' of
               Some symbol_name \<Rightarrow>
                 if binds [''symbol_name''] [] a
                 then (Inr (VSymbols (search_symbol nt symbol_name)), tools)
                 else (Inl (TypeError (type_error env function_name a)), tools)
             | None \<Rightarrow> (Inl (TypeError (type_error env function_name a)), tools))
          else if function_name = ''find_usages'' then
            (case map_of a ''symbol_name'' of
               Some symbol_name \<Rightarrow>
                 if binds [''symbol_name''] [] a
                 then (case find_usages (nav env) nt symbol_name of
                         Inl e \<Rightarrow> (Inl e, tools)
                       | Inr found \<Rightarrow> (Inr (VUsages found), tools))
                 else (Inl (TypeError (type_error env function_name a)), tools)
             | None \<Rightarrow> (Inl (TypeError (type_error env function_name a)), tools))
          else if function_name = ''get_imports'' then
            (case map_of a ''filepath'' of
               Some filepath \<Rightarrow>
                 if binds [''filepath''] [] a
                 then (let (found, nt') = get_imports (nav env) nt filepath
                       in (Inr (VStrs found), Some nt'))
                 else (Inl (TypeError (type_error env function_name a)), tools)
             | None \<Rightarrow> (Inl (TypeError (type_error env function_name a)), tools))
          else if function_name = ''get_file_tree'' then
            (if binds [] [] a
             then (Inr (VStr (get_file_tree nt)), tools)
             else (Inl (TypeError (type_error env function_name a)), tools))
          else
            (case map_of a ''pattern'' of
               Some pattern \<Rightarrow>
                 if binds [''pattern''] [''file_pattern''] a
                 then (case search_text (nav env) nt pattern (map_of a ''file_pattern'') of
                         Inl e \<Rightarrow> (Inl e, tools)
                       | Inr found \<Rightarrow> (Inr (VUsages found), tools))
                 else (Inl (TypeError (type_error env function_name a)), tools)
             | None \<Rightarrow> (Inl (TypeError (type_error env function_name a)), tools)))"

subsection \<open>\<open>review_code\<close>\<close>

record history_entry =
  he_function :: string
  he_args :: args
  result_preview :: string

definition preview :: "string \<Rightarrow> string" where
  "preview s = (if length s > 200 then take 200 s @ ''...'' else s)"

text \<open>
  The \<open>for fc in tool_calls\<close> loop of one turn, with its \<open>try\<close>: the function
  responses of the turn, the entries added to the navigation history, and the tools
  (whose file cache the calls may have filled).
\<close>

fun execute_calls ::
  "'l client_env \<Rightarrow> NavigationTools option \<Rightarrow> function_call list
     \<Rightarrow> function_response list \<times> history_entry list \<times> NavigationTools option"
where
  "execute_calls env tools [] = ([], [], tools)"
| "execute_calls env tools (fc # fcs) =
     (case execute_function env tools (fc_name fc) (fc_args fc) of
        (Inr result, tools') \<Rightarrow>
          (let (frs, entries, tools'') = execute_calls env tools' fcs
           in (\<lparr>fr_name = fc_name fc, fr_response = Result result\<rparr> # frs,
               \<lparr>he_function = fc_name fc, he_args = fc_args fc,
                 result_preview = preview (str_value env result)\<rparr> # entries,
               tools''))
      | (Inl e, tools') \<Rightarrow>
          (let (frs, entries, tools'') = execute_calls env tools' fcs
           in (\<lparr>fr_name = fc_name fc, fr_response = Error (str_exn e)\<rparr> # frs,
               entries,
               tools'')))"

record totals =
  total_input_tokens :: int
  total_output_tokens :: int
  total_tokens :: int

text \<open>\<open>getattr(response.usage_metadata, field, 0) or 0\<close>.\<close>

definition getattr_or_0 :: "usage_attr \<Rightarrow> (UsageMetadata \<Rightarrow> int option) \<Rightarrow> int" where
  "getattr_or_0 u field =
     (case u of
        UsageOf m \<Rightarrow> (case field m of None \<Rightarrow> 0 | Some n \<Rightarrow> n)
      | _ \<Rightarrow> 0)"

definition accumulate :: "totals \<Rightarrow> response \<Rightarrow> totals" where
  "accumulate t r =
     (if usage_metadata r = NoUsageAttr then t
      else \<lparr>total_input_tokens =
               total_input_tokens t + getattr_or_0 (usage_metadata r) prompt_token_count,
            total_output_tokens =
               total_output_tokens t + getattr_or_0 (usage_metadata r) candidates_token_count,
            total_tokens =
               total_tokens t + getattr_or_0 (usage_metadata r) total_token_count\<rparr>)"

text \<open>The state that a review threads through its turns.\<close>

record 'l run_state =
  rs_chat :: chat
  rs_tools :: "NavigationTools option"
  rs_limiter :: 'l

definition rate_limit :: "'l client_env \<Rightarrow> bool \<Rightarrow> 'l \<Rightarrow> bool \<times> 'l" where
  "rate_limit env enabled l = (if enabled then acquire_fn env 30 l else (True, l))"

definition rate_limit_timeout :: "string \<Rightarrow> exn" where
  "rate_limit_timeout model = RuntimeError (''Rate limit timeout for '' @ model @ ''. Please try again later.'')"

text \<open>
  The body of the \<open>while\<close> loop for a response that holds tool calls: execute them,
  acquire a rate limit token, send the function responses, and receive the next
  response.
\<close>

definition run_turn ::
  "'l client_env \<Rightarrow> bool \<Rightarrow> string \<Rightarrow> 'l run_state \<Rightarrow> function_call list
     \<Rightarrow> (exn + response \<times> history_entry list) \<times> 'l run_state"
where
  "run_turn env enabled model st tool_calls =
     (let (function_responses, entries, tools') = execute_calls env (rs_tools st) tool_calls;
          (granted, l') = rate_limit env enabled (rs_limiter st);
          st1 = st\<lparr>rs_tools := tools', rs_limiter := l'\<rparr>
      in if \<not> granted then (Inl (rate_limit_timeout model), st1)
         else
           (case send_message (rs_chat st1) (FunctionResponses function_responses) of
              Inl e \<Rightarrow> (Inl e, st1)
            | Inr (response', chat') \<Rightarrow> (Inr (response', entries), st1\<lparr>rs_chat := chat'\<rparr>)))"

text \<open>\<open>not hasattr(response, 'function_calls') or not response.function_calls\<close>, negated.\<close>

definition requests_tools :: "response \<Rightarrow> bool" where
  "requests_tools r = (case function_calls r of None \<Rightarrow> False | Some [] \<Rightarrow> False | Some (fc # fcs) \<Rightarrow> True)"

definition tool_calls_of :: "response \<Rightarrow> function_call list" where
  "tool_calls_of r = (case function_calls r of None \<Rightarrow> [] | Some fcs \<Rightarrow> fcs)"

text \<open>The local variables of \<open>review_code\<close> when the \<open>while\<close> loop is left.\<close>

record loop_exit =
  last_response :: response
  iterations_done :: nat
  exit_totals :: totals
  exit_history :: "history_entry list"

function tool_loop ::
  "'l client_env \<Rightarrow> bool \<Rightarrow> string \<Rightarrow> int \<Rightarrow> 'l run_state \<Rightarrow> response \<Rightarrow> nat \<Rightarrow> totals
     \<Rightarrow> history_entry list \<Rightarrow> (exn + loop_exit) \<times> 'l run_state"
where
  "tool_loop env enabled model max_iterations st response iterations tot hist =
     (if int iterations < max_iterations \<and> requests_tools response then
        (case run_turn env enabled model st (tool_calls_of response) of
           (Inl e, st') \<Rightarrow> (Inl e, st')
         | (Inr (response', entries), st') \<Rightarrow>
             tool_loop env enabled model max_iterations st' response' (Suc iterations)
               (accumulate tot response') (hist @ entries))
      else
        (Inr \<lparr>last_response = response, iterations_done = iterations, exit_totals = tot,
              exit_history = hist\<rparr>, st))"
  by pat_completeness auto
termination
  by (relation "measure (\<lambda>(env, enabled, model, max_iterations, st, response, iterations, tot, hist).
        nat (max_iterations - int iterations))") auto

declare tool_loop.simps [simp del]

text \<open>The final review text taken from the last response.\<close>

definition candidates_text :: "string option list option list \<Rightarrow> string" where
  "candidates_text cands =
     concat (map (\<lambda>c. case c of
                         None \<Rightarrow> []
                       | Some ps \<Rightarrow> concat (map (\<lambda>p. case p of None \<Rightarrow> [] | Some t \<Rightarrow> t) ps))
                 cands)"

definition final_review :: "response \<Rightarrow> string option" where
  "final_review r =
     (case text_of r of
        TextOf t \<Rightarrow> t
      | NoTextAttr \<Rightarrow> Some (candidates_text (candidates r)))"

record review_result =
  review_content :: "string option"
  navigation_history :: "history_entry list"
  iterations :: nat
  total_files_explored :: nat
  symbols_searched :: nat
  total_navigation_calls :: nat
  input_tokens :: int
  output_tokens :: int
  sum_tokens :: int

definition build_result :: "loop_exit \<Rightarrow> review_result" where
  "build_result ex =
     \<lparr>review_content = final_review (last_response ex),
      navigation_history = exit_history ex,
      iterations = iterations_done ex,
      total_files_explored =
        length (filter (\<lambda>h. he_function h = ''read_file'') (exit_history ex)),
      symbols_searched =
        length (filter (\<lambda>h. he_function h \<in> set [''search_symbol'', ''find_usages''])
                  (exit_history ex)),
      total_navigation_calls = length (exit_history ex),
      input_tokens = total_input_tokens (exit_totals ex),
      output_tokens = total_output_tokens (exit_totals ex),
      sum_tokens = total_tokens (exit_totals ex)\<rparr>"

definition zero_totals :: totals where
  "zero_totals = \<lparr>total_input_tokens = 0, total_output_tokens = 0, total_tokens = 0\<rparr>"

definition store_state :: "'l GeminiClient \<Rightarrow> 'l run_state \<Rightarrow> 'l GeminiClient" where
  "store_state client st =
     client\<lparr>client_chat := Some (rs_chat st), navigation_tools := rs_tools st, rate_limiter := rs_limiter st\<rparr>"

definition review_code ::
  "'l client_env \<Rightarrow> 'l GeminiClient \<Rightarrow> string \<Rightarrow> int \<Rightarrow> (exn + review_result) \<times> 'l GeminiClient"
where
  "review_code env client initial_context max_iterations =
     (if navigation_tools client = None
      then (Inl (ValueError ''Navigation tools not set up. Call setup_navigation_tools first.''), client)
      else
        (let (granted, l') = rate_limit env (enable_rate_limiting client) (rate_limiter client);
             st0 = \<lparr>rs_chat = new_chat env, rs_tools = navigation_tools client, rs_limiter = l'\<rparr>
         in if \<not> granted then (Inl (rate_limit_timeout (model_name client)), store_state client st0)
            else
              (case send_message (new_chat env) (TextMessage initial_context) of
                 Inl e \<Rightarrow> (Inl e, store_state client st0)
               | Inr (response, chat1) \<Rightarrow>
                   (case tool_loop env (enable_rate_limiting client) (model_name client)
                           max_iterations (st0\<lparr>rs_chat := chat1\<rparr>) response 0
                           (accumulate zero_totals response) [] of
                      (Inl e, st) \<Rightarrow> (Inl e, store_state client st)
                    | (Inr ex, st) \<Rightarrow> (Inr (build_result ex), store_state client st)))))"


subsection \<open>Properties of the tool-calling loop\<close>

text \<open>The rate limiter never refuses: rate limiting is off, or every \<open>acquire\<close> grants.\<close>

definition grants :: "'l client_env \<Rightarrow> bool \<Rightarrow> bool" where
  "grants env enabled \<longleftrightarrow> \<not> enabled \<or> (\<forall>l. fst (acquire_fn env 30 l))"

lemma rate_limit_grants: "grants env enabled \<Longrightarrow> fst (rate_limit env enabled l)"
  by (auto simp: grants_def rate_limit_def)

lemma tool_loop_exit:
  assumes "\<not> (int it < mx \<and> requests_tools r)"
  shows "tool_loop env en model mx st r it tot hist =
     (Inr \<lparr>last_response = r, iterations_done = it, exit_totals = tot, exit_history = hist\<rparr>, st)"
  by (subst tool_loop.simps) (simp only: assms if_False)

lemma tool_loop_turn:
  "int it < mx \<Longrightarrow> requests_tools r \<Longrightarrow>
   run_turn env en model st (tool_calls_of r) = (Inr (r', entries), st') \<Longrightarrow>
   tool_loop env en model mx st r it tot hist =
     tool_loop env en model mx st' r' (Suc it) (accumulate tot r') (hist @ entries)"
  by (subst tool_loop.simps) simp

lemma tool_loop_raise:
  "int it < mx \<Longrightarrow> requests_tools r \<Longrightarrow>
   run_turn env en model st (tool_calls_of r) = (Inl e, st') \<Longrightarrow>
   tool_loop env en model mx st r it tot hist = (Inl e, st')"
  by (subst tool_loop.simps) simp

lemma run_turn_granted:
  assumes "grants env en" and "script (rs_chat st) = r' # rest"
  shows "\<exists>st'. run_turn env en model st calls =
            (Inr (r', fst (snd (execute_calls env (rs_tools st) calls))), st') \<and>
          script (rs_chat st') = rest \<and>
          sent (rs_chat st') =
            sent (rs_chat st) @ [FunctionResponses (fst (execute_calls env (rs_tools st) calls))]"
proof -
  obtain frs entries tools' where ec: "execute_calls env (rs_tools st) calls = (frs, entries, tools')"
    by (cases "execute_calls env (rs_tools st) calls") auto
  obtain g l' where rl: "rate_limit env en (rs_limiter st) = (g, l')"
    by (cases "rate_limit env en (rs_limiter st)") auto
  have g: "g" using rate_limit_grants [OF assms(1), of "rs_limiter st"] rl by simp
  show ?thesis
    using g assms(2) by (simp add: run_turn_def ec rl send_message_def)
qed

lemma tool_loop_step:
  assumes "grants env en" and "int it < mx" and "requests_tools r"
      and "script (rs_chat st) = r' # rest"
  shows "\<exists>st' entries.
           tool_loop env en model mx st r it tot hist =
             tool_loop env en model mx st' r' (Suc it) (accumulate tot r') (hist @ entries) \<and>
           script (rs_chat st') = rest"
proof -
  from run_turn_granted [OF assms(1,4), of model "tool_calls_of r"] obtain st' where
    t: "run_turn env en model st (tool_calls_of r) =
            (Inr (r', fst (snd (execute_calls env (rs_tools st) (tool_calls_of r)))), st')"
    and s: "script (rs_chat st') = rest"
    by blast
  from tool_loop_turn [OF assms(2,3) t] s show ?thesis by blast
qed

text \<open>What a finished loop has consumed of the script.\<close>

lemma tool_loop_consumed:
  assumes "tool_loop env en model mx st r it tot hist = (Inr ex, st')"
  shows "\<exists>consumed.
           script (rs_chat st) = consumed @ script (rs_chat st') \<and>
           iterations_done ex = it + length consumed \<and>
           exit_totals ex = foldl accumulate tot consumed \<and>
           last_response ex = last (r # consumed) \<and>
           \<not> (int (iterations_done ex) < mx \<and> requests_tools (last_response ex)) \<and>
           (\<forall>x \<in> set (butlast (r # consumed)). requests_tools x)"
  using assms
proof (induction env en model mx st r it tot hist rule: tool_loop.induct)
  case (1 env en model mx st r it tot hist)
  show ?case
  proof (cases "int it < mx \<and> requests_tools r")
    case False
    with "1.prems" have "ex = \<lparr>last_response = r, iterations_done = it, exit_totals = tot, exit_history = hist\<rparr>"
      and "st' = st"
      by (simp_all add: tool_loop_exit)
    with False show ?thesis by simp
  next
    case True
    obtain res st1 where rt: "run_turn env en model st (tool_calls_of r) = (res, st1)"
      by (cases "run_turn env en model st (tool_calls_of r)") auto
    show ?thesis
    proof (cases res)
      case (Inl e)
      with True rt "1.prems" show ?thesis by (simp add: tool_loop_raise)
    next
      case (Inr p)
      obtain r' entries where p: "p = (r', entries)" by (cases p)
      have rt': "run_turn env en model st (tool_calls_of r) = (Inr (r', entries), st1)"
        using rt Inr p by simp
      have rec: "tool_loop env en model mx st1 r' (Suc it) (accumulate tot r') (hist @ entries) = (Inr ex, st')"
        using tool_loop_turn [of it mx r env en model st r' entries st1 tot hist] True rt' "1.prems"
        by simp
      from "1.IH" [OF True rt [symmetric] Inr p [symmetric] rec] obtain consumed where
        c: "script (rs_chat st1) = consumed @ script (rs_chat st')"
           "iterations_done ex = Suc it + length consumed"
           "exit_totals ex = foldl accumulate (accumulate tot r') consumed"
           "last_response ex = last (r' # consumed)"
           "\<not> (int (iterations_done ex) < mx \<and> requests_tools (last_response ex))"
           "\<forall>x \<in> set (butlast (r' # consumed)). requests_tools x"
        by blast
      have sc: "script (rs_chat st) = r' # script (rs_chat st1)"
        using rt' by (auto simp: run_turn_def send_message_def split_beta Let_def
            split: if_splits list.splits)
      show ?thesis
        using c sc True by (intro exI [of _ "r' # consumed"]) auto
    qed
  qed
qed

text \<open>With a granting limiter and a script that is long enough, the loop returns.\<close>

lemma tool_loop_returns:
  assumes "grants env en" and "nat (mx - int it) \<le> length (script (rs_chat st))"
  shows "\<exists>ex st'. tool_loop env en model mx st r it tot hist = (Inr ex, st')"
  using assms
proof (induction "nat (mx - int it)" arbitrary: st r it tot hist)
  case 0
  then have "\<not> (int it < mx \<and> requests_tools r)" by simp
  then show ?case by (simp add: tool_loop_exit)
next
  case (Suc n)
  show ?case
  proof (cases "requests_tools r")
    case False
    then show ?thesis by (simp add: tool_loop_exit)
  next
    case True
    have lt: "int it < mx" using Suc.hyps(2) by linarith
    from Suc.prems(2) Suc.hyps(2) obtain r' rest where sc: "script (rs_chat st) = r' # rest"
      by (cases "script (rs_chat st)") auto
    from tool_loop_step [OF Suc.prems(1) lt True sc] obtain st1 entries where
      eq: "tool_loop env en model mx st r it tot hist =
             tool_loop env en model mx st1 r' (Suc it) (accumulate tot r') (hist @ entries)"
      and s1: "script (rs_chat st1) = rest"
      by blast
    have n: "n = nat (mx - int (Suc it))" using Suc.hyps(2) by linarith
    have len: "nat (mx - int (Suc it)) \<le> length (script (rs_chat st1))"
      using Suc.prems(2) sc s1 Suc.hyps(2) by simp
    from Suc.hyps(1) [OF n Suc.prems(1) len] eq show ?thesis by simp
  qed
qed


lemma tool_loop_bound:
  assumes "tool_loop env en model mx st r it tot hist = (Inr ex, st')" and "int it \<le> max 0 mx"
  shows "int (iterations_done ex) \<le> max 0 mx"
  using assms
proof (induction env en model mx st r it tot hist rule: tool_loop.induct)
  case (1 env en model mx st r it tot hist)
  show ?case
  proof (cases "int it < mx \<and> requests_tools r")
    case False
    with "1.prems" show ?thesis by (auto simp: tool_loop_exit)
  next
    case True
    obtain res st1 where rt: "run_turn env en model st (tool_calls_of r) = (res, st1)"
      by (cases "run_turn env en model st (tool_calls_of r)") auto
    show ?thesis
    proof (cases res)
      case (Inl e)
      with True rt "1.prems" show ?thesis by (simp add: tool_loop_raise)
    next
      case (Inr p)
      obtain r' entries where p: "p = (r', entries)" by (cases p)
      have rt': "run_turn env en model st (tool_calls_of r) = (Inr (r', entries), st1)"
        using rt Inr p by simp
      have rec: "tool_loop env en model mx st1 r' (Suc it) (accumulate tot r') (hist @ entries) = (Inr ex, st')"
        using tool_loop_turn [of it mx r env en model st r' entries st1 tot hist] True rt' "1.prems"
        by simp
      have "int (Suc it) \<le> max 0 mx" using True by simp
      from "1.IH" [OF True rt [symmetric] Inr p [symmetric] rec this] show ?thesis .
    qed
  qed
qed

lemma review_code_trace:
  assumes "review_code env client ctx mx = (Inr res, client')"
  shows "\<exists>ex. res = build_result ex \<and>
           Suc (iterations_done ex) \<le> length (script (new_chat env)) \<and>
           last_response ex = script (new_chat env) ! iterations_done ex \<and>
           exit_totals ex =
             foldl accumulate zero_totals (take (Suc (iterations_done ex)) (script (new_chat env))) \<and>
           \<not> (int (iterations_done ex) < mx \<and> requests_tools (last_response ex)) \<and>
           int (iterations_done ex) \<le> max 0 mx"
proof -
  obtain g l' where rl: "rate_limit env (enable_rate_limiting client) (rate_limiter client) = (g, l')"
    by (cases "rate_limit env (enable_rate_limiting client) (rate_limiter client)") auto
  from assms rl have nt: "navigation_tools client \<noteq> None" and g: "g"
    by (auto simp: review_code_def Let_def split: if_splits)
  from assms rl nt g obtain r0 rest where sc: "script (new_chat env) = r0 # rest"
    by (cases "script (new_chat env)") (auto simp: review_code_def Let_def send_message_def)
  define st0 where "st0 = \<lparr>rs_chat = \<lparr>script = rest, sent = sent (new_chat env) @ [TextMessage ctx]\<rparr>,
      rs_tools = navigation_tools client, rs_limiter = l'\<rparr>"
  from assms rl nt g sc obtain ex st where
    lp: "tool_loop env (enable_rate_limiting client) (model_name client) mx st0 r0 0
           (accumulate zero_totals r0) [] = (Inr ex, st)"
    and res: "res = build_result ex"
    by (auto simp: review_code_def Let_def send_message_def st0_def split: prod.splits sum.splits)
  from tool_loop_consumed [OF lp] obtain consumed where
    c: "script (rs_chat st0) = consumed @ script (rs_chat st)"
       "iterations_done ex = 0 + length consumed"
       "exit_totals ex = foldl accumulate (accumulate zero_totals r0) consumed"
       "last_response ex = last (r0 # consumed)"
       "\<not> (int (iterations_done ex) < mx \<and> requests_tools (last_response ex))"
    by blast
  have rest: "rest = consumed @ script (rs_chat st)" using c(1) by (simp add: st0_def)
  have n: "iterations_done ex = length consumed" using c(2) by simp
  have tk: "take (Suc (iterations_done ex)) (script (new_chat env)) = r0 # consumed"
    by (simp add: sc rest n)
  have lst: "script (new_chat env) ! iterations_done ex = last (r0 # consumed)"
    unfolding sc rest n
    by (metis append_Cons last_conv_nth length_Cons list.distinct(1) diff_Suc_1 nth_append_left lessI)
  have bd: "int (iterations_done ex) \<le> max 0 mx"
    using tool_loop_bound [OF lp] by simp
  show ?thesis
    using res c(3,4,5) tk lst bd by (intro exI [of _ ex]) (simp add: sc rest n)
qed

lemma review_code_returns:
  assumes "navigation_tools client \<noteq> None" and "grants env (enable_rate_limiting client)"
      and "nat mx < length (script (new_chat env))"
  shows "\<exists>res client'. review_code env client ctx mx = (Inr res, client')"
proof -
  obtain g l' where rl: "rate_limit env (enable_rate_limiting client) (rate_limiter client) = (g, l')"
    by (cases "rate_limit env (enable_rate_limiting client) (rate_limiter client)") auto
  have g: "g" using rate_limit_grants [OF assms(2), of "rate_limiter client"] rl by simp
  from assms(3) obtain r0 rest where sc: "script (new_chat env) = r0 # rest"
    by (cases "script (new_chat env)") auto
  define st0 where "st0 = \<lparr>rs_chat = \<lparr>script = rest, sent = sent (new_chat env) @ [TextMessage ctx]\<rparr>,
      rs_tools = navigation_tools client, rs_limiter = l'\<rparr>"
  have "nat (mx - int 0) \<le> length (script (rs_chat st0))"
    using assms(3) sc by (simp add: st0_def)
  from tool_loop_returns [OF assms(2) this] obtain ex st where
    "tool_loop env (enable_rate_limiting client) (model_name client) mx st0 r0 0
           (accumulate zero_totals r0) [] = (Inr ex, st)"
    by blast
  then show ?thesis
    using assms(1) rl g sc by (simp add: review_code_def Let_def send_message_def st0_def)
qed


text \<open>
  The tokens that a turn reports, in the words of the specification: the counts of its
  usage metadata, and zero when the metadata or a count is missing or \<open>None\<close>.
\<close>

definition reported_input :: "response \<Rightarrow> int" where
  "reported_input r =
     (case usage_metadata r of
        UsageOf m \<Rightarrow> (case prompt_token_count m of Some a \<Rightarrow> a | None \<Rightarrow> 0)
      | UsageNone \<Rightarrow> 0
      | NoUsageAttr \<Rightarrow> 0)"

definition reported_output :: "response \<Rightarrow> int" where
  "reported_output r =
     (case usage_metadata r of
        UsageOf m \<Rightarrow> (case candidates_token_count m of Some b \<Rightarrow> b | None \<Rightarrow> 0)
      | UsageNone \<Rightarrow> 0
      | NoUsageAttr \<Rightarrow> 0)"

text \<open>A scripted agent, a limiter that always grants, and a client for them.\<close>

definition scripted_env :: "response list \<Rightarrow> unit client_env" where
  "scripted_env rs =
     \<lparr>nav = notes_env,
      new_chat = \<lparr>script = rs, sent = []\<rparr>,
      acquire_fn = (\<lambda>timeout l. (True, l)),
      str_value = (\<lambda>v. case v of VStr s \<Rightarrow> s | _ \<Rightarrow> ''[]''),
      type_error = (\<lambda>f a. f @ ''() got an unexpected keyword argument'')\<rparr>"

definition scripted_client :: "unit GeminiClient" where
  "scripted_client =
     \<lparr>model_name = ''gemini-2.5-pro'',
      navigation_tools = Some sibling_tools,
      client_chat = None,
      enable_rate_limiting = True,
      rate_limiter = ()\<rparr>"

definition tool_request :: "usage_attr \<Rightarrow> function_call list \<Rightarrow> response" where
  "tool_request u calls =
     \<lparr>usage_metadata = u, function_calls = Some calls, text_of = TextOf None, candidates = []\<rparr>"

definition final_answer :: "usage_attr \<Rightarrow> string \<Rightarrow> response" where
  "final_answer u t =
     \<lparr>usage_metadata = u, function_calls = None, text_of = TextOf (Some t), candidates = []\<rparr>"

definition read_main :: function_call where
  "read_main = \<lparr>fc_name = ''read_file'', fc_args = [(''filepath'', ''notes.py'')]\<rparr>"

lemma foldl_accumulate_input:
  "total_input_tokens (foldl accumulate t rs) = total_input_tokens t + sum_list (map reported_input rs)"
  by (induction rs arbitrary: t)
     (auto simp: accumulate_def reported_input_def getattr_or_0_def
        split: usage_attr.splits option.splits)

lemma foldl_accumulate_output:
  "total_output_tokens (foldl accumulate t rs) = total_output_tokens t + sum_list (map reported_output rs)"
  by (induction rs arbitrary: t)
     (auto simp: accumulate_def reported_output_def getattr_or_0_def
        split: usage_attr.splits option.splits)

text \<open>
  Claim C7. A review that returns a result has consumed the first \<open>iterations + 1\<close>
  responses of the script, one per turn, and its input and output token totals are the
  sums of what these turns report, a turn with missing or \<open>None\<close> usage counting as
  zero. No usage metadata makes the review fail: with navigation tools set, a limiter
  that grants, and an agent that answers every message (more than \<open>max_iterations\<close>
  responses), the review returns a result.
\<close>

theorem token_accumulation:
  "(review_code env client ctx mx = (Inr res, client') \<longrightarrow>
      Suc (iterations res) \<le> length (script (new_chat env)) \<and>
      input_tokens res =
        sum_list (map reported_input (take (Suc (iterations res)) (script (new_chat env)))) \<and>
      output_tokens res =
        sum_list (map reported_output (take (Suc (iterations res)) (script (new_chat env))))) \<and>
   (navigation_tools client \<noteq> None \<and> grants env (enable_rate_limiting client) \<and>
      nat mx < length (script (new_chat env)) \<longrightarrow>
      (\<exists>res' client''. review_code env client ctx mx = (Inr res', client'')))"
proof (intro conjI impI)
  assume run: "review_code env client ctx mx = (Inr res, client')"
  from review_code_trace [OF run] obtain ex where
    res: "res = build_result ex"
    and len: "Suc (iterations_done ex) \<le> length (script (new_chat env))"
    and tot: "exit_totals ex =
             foldl accumulate zero_totals (take (Suc (iterations_done ex)) (script (new_chat env)))"
    by blast
  have it: "iterations res = iterations_done ex" by (simp add: res build_result_def)
  show "Suc (iterations res) \<le> length (script (new_chat env))" using len it by simp
  show "input_tokens res =
        sum_list (map reported_input (take (Suc (iterations res)) (script (new_chat env))))"
    unfolding it by (simp add: res build_result_def tot foldl_accumulate_input zero_totals_def)
  show "output_tokens res =
        sum_list (map reported_output (take (Suc (iterations res)) (script (new_chat env))))"
    unfolding it by (simp add: res build_result_def tot foldl_accumulate_output zero_totals_def)
next
  assume "navigation_tools client \<noteq> None \<and> grants env (enable_rate_limiting client) \<and>
      nat mx < length (script (new_chat env))"
  then show "\<exists>res' client''. review_code env client ctx mx = (Inr res', client'')"
    using review_code_returns by blast
qed

definition usage_script :: "response list" where
  "usage_script =
     [tool_request (UsageOf \<lparr>prompt_token_count = Some 10, candidates_token_count = Some 5,
                             total_token_count = Some 15\<rparr>) [read_main],
      tool_request NoUsageAttr [read_main],
      tool_request UsageNone [read_main],
      final_answer (UsageOf \<lparr>prompt_token_count = Some 7, candidates_token_count = None,
                             total_token_count = Some 0\<rparr>) ''LGTM'']"



lemma usage_run:
  "fst (review_code (scripted_env usage_script) scripted_client ''ctx'' 3) =
     Inr \<lparr>review_content = Some ''LGTM'',
          navigation_history =
            [\<lparr>he_function = ''read_file'', he_args = [(''filepath'', ''notes.py'')],
               result_preview = ''Error: see the log'' @ [CHR 0x0A] @ ''import os''\<rparr>,
             \<lparr>he_function = ''read_file'', he_args = [(''filepath'', ''notes.py'')],
               result_preview = ''Error: see the log'' @ [CHR 0x0A] @ ''import os''\<rparr>,
             \<lparr>he_function = ''read_file'', he_args = [(''filepath'', ''notes.py'')],
               result_preview = ''Error: see the log'' @ [CHR 0x0A] @ ''import os''\<rparr>],
          iterations = 3, total_files_explored = 3, symbols_searched = 0,
          total_navigation_calls = 3, input_tokens = 17, output_tokens = 5, sum_tokens = 15\<rparr>"
  by code_simp

theorem token_accumulation_witness:
  "\<exists>res client'.
     review_code (scripted_env usage_script) scripted_client ''ctx'' 3 = (Inr res, client') \<and>
     iterations res = 3 \<and>
     map reported_input (take (Suc (iterations res)) usage_script) = [10, 0, 0, 7] \<and>
     input_tokens res = 17 \<and>
     map reported_output (take (Suc (iterations res)) usage_script) = [5, 0, 0, 0] \<and>
     output_tokens res = 5"
proof -
  have nt: "navigation_tools scripted_client \<noteq> None" by (simp add: scripted_client_def)
  have gr: "grants (scripted_env usage_script) (enable_rate_limiting scripted_client)"
    by (simp add: grants_def scripted_env_def)
  have sc: "script (new_chat (scripted_env usage_script)) = usage_script"
    by (simp add: scripted_env_def)
  have len: "nat 3 < length (script (new_chat (scripted_env usage_script)))"
    unfolding sc by (simp add: usage_script_def)
  from token_accumulation [of "scripted_env usage_script" scripted_client "''ctx''" 3] nt gr len
  obtain res client' where
    run: "review_code (scripted_env usage_script) scripted_client ''ctx'' 3 = (Inr res, client')"
    by blast
  from token_accumulation [of "scripted_env usage_script" scripted_client "''ctx''" 3 res client'] run sc
  have sums: "input_tokens res = sum_list (map reported_input (take (Suc (iterations res)) usage_script))"
      "output_tokens res = sum_list (map reported_output (take (Suc (iterations res)) usage_script))"
    by simp_all
  have it: "iterations res = 3" using usage_run run by simp
  have a: "map reported_input (take (Suc 3) usage_script) = [10, 0, 0, 7]"
    by (simp add: usage_script_def tool_request_def final_answer_def reported_input_def)
  have b: "map reported_output (take (Suc 3) usage_script) = [5, 0, 0, 0]"
    by (simp add: usage_script_def tool_request_def final_answer_def reported_output_def)
  show ?thesis
    using run sums it a b by (intro exI [of _ res] exI [of _ client']) simp
qed

lemma review_code_start:
  assumes "navigation_tools client \<noteq> None" and "grants env (enable_rate_limiting client)"
      and "script (new_chat env) = r0 # rest"
  shows "\<exists>st0. script (rs_chat st0) = rest \<and>
           review_code env client ctx mx =
             (case tool_loop env (enable_rate_limiting client) (model_name client) mx st0 r0 0
                     (accumulate zero_totals r0) [] of
                (Inl e, st) \<Rightarrow> (Inl e, store_state client st)
              | (Inr ex, st) \<Rightarrow> (Inr (build_result ex), store_state client st))"
proof -
  obtain g l' where rl: "rate_limit env (enable_rate_limiting client) (rate_limiter client) = (g, l')"
    by (cases "rate_limit env (enable_rate_limiting client) (rate_limiter client)") auto
  have g: "g" using rate_limit_grants [OF assms(2), of "rate_limiter client"] rl by simp
  define st0 where "st0 = \<lparr>rs_chat = \<lparr>script = rest, sent = sent (new_chat env) @ [TextMessage ctx]\<rparr>,
      rs_tools = navigation_tools client, rs_limiter = l'\<rparr>"
  have "script (rs_chat st0) = rest" by (simp add: st0_def)
  moreover have "review_code env client ctx mx =
             (case tool_loop env (enable_rate_limiting client) (model_name client) mx st0 r0 0
                     (accumulate zero_totals r0) [] of
                (Inl e, st) \<Rightarrow> (Inl e, store_state client st)
              | (Inr ex, st) \<Rightarrow> (Inr (build_result ex), store_state client st))"
    using assms(1,3) rl g by (auto simp: review_code_def Let_def send_message_def st0_def)
  ultimately show ?thesis by blast
qed

text \<open>
  Claim C4. With a limiter that grants: for a scripted agent whose first three responses
  request tool calls and whose fourth is a final answer with text \<open>final_text\<close>, the
  review with \<open>max_iterations = 10\<close> returns with \<open>iterations = 3\<close> and
  \<open>final_text\<close> as its content; for a scripted agent all of whose responses request
  tool calls, the review with \<open>max_iterations = 2\<close> returns with \<open>iterations = 2\<close>.
\<close>

theorem scripted_loop_terminates:
  "(navigation_tools client \<noteq> None \<and> grants env (enable_rate_limiting client) \<and>
      script (new_chat env) = r0 # r1 # r2 # r3 # rest \<and>
      requests_tools r0 \<and> requests_tools r1 \<and> requests_tools r2 \<and> \<not> requests_tools r3 \<and>
      text_of r3 = TextOf (Some final_text) \<longrightarrow>
      (\<exists>res client'. review_code env client ctx 10 = (Inr res, client') \<and>
          iterations res = 3 \<and> review_content res = Some final_text)) \<and>
   (navigation_tools client \<noteq> None \<and> grants env (enable_rate_limiting client) \<and>
      script (new_chat env) = r0 # r1 # r2 # rest \<and>
      (\<forall>r \<in> set (script (new_chat env)). requests_tools r) \<longrightarrow>
      (\<exists>res client'. review_code env client ctx 2 = (Inr res, client') \<and> iterations res = 2))"
proof (intro conjI impI)
  let ?en = "enable_rate_limiting client" and ?m = "model_name client"
  assume h: "navigation_tools client \<noteq> None \<and> grants env (enable_rate_limiting client) \<and>
      script (new_chat env) = r0 # r1 # r2 # r3 # rest \<and>
      requests_tools r0 \<and> requests_tools r1 \<and> requests_tools r2 \<and> \<not> requests_tools r3 \<and>
      text_of r3 = TextOf (Some final_text)"
  then have gr: "grants env ?en" by simp
  from review_code_start [of client env r0 "r1 # r2 # r3 # rest" ctx 10] h obtain st0 where
    s0: "script (rs_chat st0) = r1 # r2 # r3 # rest"
    and rc: "review_code env client ctx 10 =
             (case tool_loop env ?en ?m 10 st0 r0 0 (accumulate zero_totals r0) [] of
                (Inl e, st) \<Rightarrow> (Inl e, store_state client st)
              | (Inr ex, st) \<Rightarrow> (Inr (build_result ex), store_state client st))"
    by blast
  from tool_loop_step [OF gr _ _ s0, of 0 10 r0 ?m "accumulate zero_totals r0" "[]"] h
  obtain st1 e1 where
    t1: "tool_loop env ?en ?m 10 st0 r0 0 (accumulate zero_totals r0) [] =
           tool_loop env ?en ?m 10 st1 r1 (Suc 0) (accumulate (accumulate zero_totals r0) r1) ([] @ e1)"
    and s1: "script (rs_chat st1) = r2 # r3 # rest"
    by auto
  from tool_loop_step [OF gr _ _ s1, of "Suc 0" 10 r1 ?m
      "accumulate (accumulate zero_totals r0) r1" "[] @ e1"] h
  obtain st2 e2 where
    t2: "tool_loop env ?en ?m 10 st1 r1 (Suc 0) (accumulate (accumulate zero_totals r0) r1) ([] @ e1) =
           tool_loop env ?en ?m 10 st2 r2 (Suc (Suc 0))
             (accumulate (accumulate (accumulate zero_totals r0) r1) r2) (([] @ e1) @ e2)"
    and s2: "script (rs_chat st2) = r3 # rest"
    by auto
  from tool_loop_step [OF gr _ _ s2, of "Suc (Suc 0)" 10 r2 ?m
      "accumulate (accumulate (accumulate zero_totals r0) r1) r2" "([] @ e1) @ e2"] h
  obtain st3 e3 where
    t3: "tool_loop env ?en ?m 10 st2 r2 (Suc (Suc 0))
             (accumulate (accumulate (accumulate zero_totals r0) r1) r2) (([] @ e1) @ e2) =
           tool_loop env ?en ?m 10 st3 r3 (Suc (Suc (Suc 0)))
             (accumulate (accumulate (accumulate (accumulate zero_totals r0) r1) r2) r3)
             ((([] @ e1) @ e2) @ e3)"
    by auto
  have stop: "\<not> (int (Suc (Suc (Suc 0))) < 10 \<and> requests_tools r3)" using h by simp
  have fin: "final_review r3 = Some final_text" using h by (simp add: final_review_def)
  show "\<exists>res client'. review_code env client ctx 10 = (Inr res, client') \<and>
          iterations res = 3 \<and> review_content res = Some final_text"
    unfolding rc t1 t2 t3 tool_loop_exit [OF stop]
    by (simp add: build_result_def fin)
next
  let ?en = "enable_rate_limiting client" and ?m = "model_name client"
  assume h: "navigation_tools client \<noteq> None \<and> grants env (enable_rate_limiting client) \<and>
      script (new_chat env) = r0 # r1 # r2 # rest \<and>
      (\<forall>r \<in> set (script (new_chat env)). requests_tools r)"
  then have gr: "grants env ?en" and rq: "requests_tools r0" "requests_tools r1" by simp_all
  from review_code_start [of client env r0 "r1 # r2 # rest" ctx 2] h obtain st0 where
    s0: "script (rs_chat st0) = r1 # r2 # rest"
    and rc: "review_code env client ctx 2 =
             (case tool_loop env ?en ?m 2 st0 r0 0 (accumulate zero_totals r0) [] of
                (Inl e, st) \<Rightarrow> (Inl e, store_state client st)
              | (Inr ex, st) \<Rightarrow> (Inr (build_result ex), store_state client st))"
    by blast
  from tool_loop_step [OF gr _ _ s0, of 0 2 r0 ?m "accumulate zero_totals r0" "[]"] rq
  obtain st1 e1 where
    t1: "tool_loop env ?en ?m 2 st0 r0 0 (accumulate zero_totals r0) [] =
           tool_loop env ?en ?m 2 st1 r1 (Suc 0) (accumulate (accumulate zero_totals r0) r1) ([] @ e1)"
    and s1: "script (rs_chat st1) = r2 # rest"
    by auto
  from tool_loop_step [OF gr _ _ s1, of "Suc 0" 2 r1 ?m
      "accumulate (accumulate zero_totals r0) r1" "[] @ e1"] rq
  obtain st2 e2 where
    t2: "tool_loop env ?en ?m 2 st1 r1 (Suc 0) (accumulate (accumulate zero_totals r0) r1) ([] @ e1) =
           tool_loop env ?en ?m 2 st2 r2 (Suc (Suc 0))
             (accumulate (accumulate (accumulate zero_totals r0) r1) r2) (([] @ e1) @ e2)"
    by auto
  have stop: "\<not> (int (Suc (Suc 0)) < 2 \<and> requests_tools r2)" by simp
  show "\<exists>res client'. review_code env client ctx 2 = (Inr res, client') \<and> iterations res = 2"
    unfolding rc t1 t2 tool_loop_exit [OF stop]
    by (simp add: build_result_def)
qed


definition endless_script :: "response list" where
  "endless_script =
     [tool_request NoUsageAttr [read_main], tool_request NoUsageAttr [read_main],
      tool_request NoUsageAttr [read_main]]"

theorem scripted_loop_terminates_witness:
  "(\<exists>res client'. review_code (scripted_env usage_script) scripted_client ''ctx'' 10 = (Inr res, client') \<and>
       iterations res = 3 \<and> review_content res = Some ''LGTM'') \<and>
   (\<exists>res client'. review_code (scripted_env endless_script) scripted_client ''ctx'' 2 = (Inr res, client') \<and>
       iterations res = 2)"
proof -
  have nt: "navigation_tools scripted_client \<noteq> None" by (simp add: scripted_client_def)
  have gr: "\<And>rs. grants (scripted_env rs) (enable_rate_limiting scripted_client)"
    by (simp add: grants_def scripted_env_def)
  have sc: "\<And>rs. script (new_chat (scripted_env rs)) = rs"
    by (simp add: scripted_env_def)
  let ?t = "\<lambda>u. tool_request u [read_main]"
  let ?u = "UsageOf \<lparr>prompt_token_count = Some 10, candidates_token_count = Some 5,
                             total_token_count = Some 15\<rparr>"
  let ?f = "final_answer (UsageOf \<lparr>prompt_token_count = Some 7, candidates_token_count = None,
                             total_token_count = Some 0\<rparr>) ''LGTM''"
  have us: "usage_script = ?t ?u # ?t NoUsageAttr # ?t UsageNone # ?f # []"
    by (simp add: usage_script_def)
  have rq: "\<And>u. requests_tools (?t u)" by (simp add: requests_tools_def tool_request_def)
  have nrq: "\<not> requests_tools ?f" by (simp add: requests_tools_def final_answer_def)
  have tx: "text_of ?f = TextOf (Some ''LGTM'')" by (simp add: final_answer_def)
  have first: "\<exists>res client'. review_code (scripted_env usage_script) scripted_client ''ctx'' 10 = (Inr res, client') \<and>
       iterations res = 3 \<and> review_content res = Some ''LGTM''"
    using scripted_loop_terminates [of scripted_client "scripted_env usage_script"
        "?t ?u" "?t NoUsageAttr" "?t UsageNone" ?f "[]" "''LGTM''" "''ctx''"]
      nt gr [of usage_script] sc [of usage_script] us rq nrq tx
    by simp
  have es: "endless_script = ?t NoUsageAttr # ?t NoUsageAttr # ?t NoUsageAttr # []"
    by (simp add: endless_script_def)
  have all: "\<forall>r \<in> set endless_script. requests_tools r"
    by (simp add: endless_script_def rq)
  have second: "\<exists>res client'. review_code (scripted_env endless_script) scripted_client ''ctx'' 2 = (Inr res, client') \<and>
       iterations res = 2"
    using scripted_loop_terminates [of scripted_client "scripted_env endless_script"
        "?t NoUsageAttr" "?t NoUsageAttr" "?t NoUsageAttr" "?t NoUsageAttr" "[]" "''LGTM''" "''ctx''"]
      nt gr [of endless_script] sc [of endless_script] es all
    by simp
  from first second show ?thesis by blast
qed

subsection \<open>Budget exhaustion and clean termination\<close>

definition clean_script :: "response list" where
  "clean_script = [tool_request NoUsageAttr [read_main], final_answer NoUsageAttr ''done'']"

definition exhausted_script :: "response list" where
  "exhausted_script =
     [tool_request NoUsageAttr [read_main],
      \<lparr>usage_metadata = NoUsageAttr, function_calls = Some [read_main],
        text_of = TextOf (Some ''done''), candidates = []\<rparr>]"

text \<open>
  Two reviews with \<open>max_iterations = 1\<close>. In the first the agent answers the tool
  results with a final text and no tool calls (a clean termination); in the second the
  same text comes with a further tool call, so that the loop stops on its budget.
  The two returned results are equal in every field.
\<close>

theorem budget_exhaustion_not_marked:
  "fst (review_code (scripted_env clean_script) scripted_client ''ctx'' 1) =
     Inr \<lparr>review_content = Some ''done'',
          navigation_history =
            [\<lparr>he_function = ''read_file'', he_args = [(''filepath'', ''notes.py'')],
               result_preview = ''Error: see the log'' @ [CHR 0x0A] @ ''import os''\<rparr>],
          iterations = 1, total_files_explored = 1, symbols_searched = 0,
          total_navigation_calls = 1, input_tokens = 0, output_tokens = 0, sum_tokens = 0\<rparr> \<and>
   fst (review_code (scripted_env exhausted_script) scripted_client ''ctx'' 1) =
     Inr \<lparr>review_content = Some ''done'',
          navigation_history =
            [\<lparr>he_function = ''read_file'', he_args = [(''filepath'', ''notes.py'')],
               result_preview = ''Error: see the log'' @ [CHR 0x0A] @ ''import os''\<rparr>],
          iterations = 1, total_files_explored = 1, symbols_searched = 0,
          total_navigation_calls = 1, input_tokens = 0, output_tokens = 0, sum_tokens = 0\<rparr> \<and>
   \<not> requests_tools (last clean_script) \<and>
   requests_tools (last exhausted_script)"
  by code_simp

text \<open>
  Claim C3, as amended. The result of a review carries the number of iterations and the
  text of the last response received. When that last response still requested tool
  calls, \<open>iterations\<close> equals \<open>max_iterations\<close> (zero for a negative limit); a result
  with \<open>iterations\<close> below \<open>max_iterations\<close> comes from a response without tool
  calls. No other field tells the two terminations apart.
\<close>

theorem iteration_budget_amended:
  assumes "review_code env client ctx mx = (Inr res, client')"
  shows "iterations res < length (script (new_chat env)) \<and>
         review_content res = final_review (script (new_chat env) ! iterations res) \<and>
         (requests_tools (script (new_chat env) ! iterations res) \<longrightarrow>
            int (iterations res) = max 0 mx) \<and>
         (int (iterations res) < mx \<longrightarrow>
            \<not> requests_tools (script (new_chat env) ! iterations res))"
proof -
  from review_code_trace [OF assms] obtain ex where
    res: "res = build_result ex"
    and len: "Suc (iterations_done ex) \<le> length (script (new_chat env))"
    and lst: "last_response ex = script (new_chat env) ! iterations_done ex"
    and stop: "\<not> (int (iterations_done ex) < mx \<and> requests_tools (last_response ex))"
    and bd: "int (iterations_done ex) \<le> max 0 mx"
    by blast
  have it: "iterations res = iterations_done ex" and rc: "review_content res = final_review (last_response ex)"
    by (simp_all add: res build_result_def)
  show ?thesis
    unfolding it rc using len lst stop bd by auto
qed

theorem iteration_budget_amended_witness:
  "\<exists>res client'.
     review_code (scripted_env exhausted_script) scripted_client ''ctx'' 1 = (Inr res, client') \<and>
     iterations res = 1 \<and>
     requests_tools (exhausted_script ! iterations res) \<and>
     review_content res = Some ''done''"
proof -
  have sc: "script (new_chat (scripted_env exhausted_script)) = exhausted_script"
    by (simp add: scripted_env_def)
  obtain r client' where
    run: "review_code (scripted_env exhausted_script) scripted_client ''ctx'' 1 = (r, client')"
    by (cases "review_code (scripted_env exhausted_script) scripted_client ''ctx'' 1") auto
  have "fst (review_code (scripted_env exhausted_script) scripted_client ''ctx'' 1) =
     Inr \<lparr>review_content = Some ''done'',
          navigation_history =
            [\<lparr>he_function = ''read_file'', he_args = [(''filepath'', ''notes.py'')],
               result_preview = ''Error: see the log'' @ [CHR 0x0A] @ ''import os''\<rparr>],
          iterations = 1, total_files_explored = 1, symbols_searched = 0,
          total_navigation_calls = 1, input_tokens = 0, output_tokens = 0, sum_tokens = 0\<rparr>"
    by code_simp
  with run obtain res where r: "r = Inr res" and it: "iterations res = 1"
    and c: "review_content res = Some ''done''"
    by auto
  have rq: "requests_tools (exhausted_script ! 1)"
    by (simp add: exhausted_script_def requests_tools_def)
  from iteration_budget_amended [of "scripted_env exhausted_script" scripted_client "''ctx''" 1 res client']
    run r
  have "(requests_tools (exhausted_script ! iterations res) \<longrightarrow> int (iterations res) = max 0 1)"
    unfolding sc by simp
  then show ?thesis
    using run r it c rq by (intro exI [of _ res] exI [of _ client']) simp
qed


subsection \<open>Failures of tool calls\<close>

lemma execute_calls_append:
  "execute_calls env tools (xs @ ys) =
     (let (f1, h1, t1) = execute_calls env tools xs;
          (f2, h2, t2) = execute_calls env t1 ys
      in (f1 @ f2, h1 @ h2, t2))"
proof (induction xs arbitrary: tools)
  case Nil
  show ?case by (simp add: split_beta)
next
  case (Cons x xs)
  obtain out t1 where ef: "execute_function env tools (fc_name x) (fc_args x) = (out, t1)"
    by (cases "execute_function env tools (fc_name x) (fc_args x)") auto
  show ?case
    by (cases out) (simp_all add: ef Cons.IH split_beta Let_def)
qed

lemma execute_calls_names:
  "map fr_name (fst (execute_calls env tools calls)) = map fc_name calls"
proof (induction calls arbitrary: tools)
  case Nil
  show ?case by simp
next
  case (Cons x xs)
  obtain out t1 where ef: "execute_function env tools (fc_name x) (fc_args x) = (out, t1)"
    by (cases "execute_function env tools (fc_name x) (fc_args x)") auto
  show ?case
    by (cases out) (simp_all add: ef Cons.IH split_beta Let_def)
qed

lemma execute_calls_single:
  "execute_function env tools (fc_name fc) (fc_args fc) = (out, t1) \<Longrightarrow>
   fst (execute_calls env tools (fc # rest)) =
     \<lparr>fr_name = fc_name fc,
       fr_response = (case out of Inl e \<Rightarrow> Error (str_exn e) | Inr v \<Rightarrow> Result v)\<rparr>
     # fst (execute_calls env t1 rest)"
  by (cases out) (simp_all add: split_beta Let_def)

lemma execute_function_unknown:
  "function_name \<notin> set function_map \<Longrightarrow>
   execute_function env (Some nt) function_name a =
     (Inl (ValueError (''Unknown function: '' @ function_name)), Some nt)"
  by (simp add: execute_function_def)

lemma tool_loop_sends:
  assumes "grants env en" and "int it < mx" and "requests_tools r"
      and "script (rs_chat st) = r' # rest"
  shows "\<exists>st'.
           tool_loop env en model mx st r it tot hist =
             tool_loop env en model mx st' r' (Suc it) (accumulate tot r')
               (hist @ fst (snd (execute_calls env (rs_tools st) (tool_calls_of r)))) \<and>
           sent (rs_chat st') =
             sent (rs_chat st) @
               [FunctionResponses (fst (execute_calls env (rs_tools st) (tool_calls_of r)))]"
proof -
  from run_turn_granted [OF assms(1,4), of model "tool_calls_of r"] obtain st' where
    t: "run_turn env en model st (tool_calls_of r) =
            (Inr (r', fst (snd (execute_calls env (rs_tools st) (tool_calls_of r)))), st')"
    and s: "sent (rs_chat st') =
            sent (rs_chat st) @ [FunctionResponses (fst (execute_calls env (rs_tools st) (tool_calls_of r)))]"
    by blast
  from tool_loop_turn [OF assms(2,3) t] s show ?thesis by blast
qed

text \<open>
  Claim C9. In one turn every requested call gets one function response, in order and
  under its own name. For the call \<open>fc\<close> at any position, the response is the error
  text of the exception that \<open>_execute_function\<close> raised for it, or its result, and
  the calls after it are executed from the tools as that call left them. An unknown
  function name raises \<open>ValueError\<close>, so it is answered by such an error response.
  With a limiter that grants and an agent that answers, the responses of the turn are
  the next message sent to the agent and the loop goes on with the agent's answer.
\<close>

theorem tool_failures_stay_per_call:
  "map fr_name (fst (execute_calls env tools calls)) = map fc_name calls \<and>
   (calls = before @ fc # rest \<longrightarrow>
      (\<exists>outcome tools'.
          execute_function env (snd (snd (execute_calls env tools before))) (fc_name fc) (fc_args fc)
            = (outcome, tools') \<and>
          fst (execute_calls env tools calls) =
            fst (execute_calls env tools before) @
            \<lparr>fr_name = fc_name fc,
              fr_response = (case outcome of Inl e \<Rightarrow> Error (str_exn e) | Inr v \<Rightarrow> Result v)\<rparr> #
            fst (execute_calls env tools' rest))) \<and>
   (fc_name fc \<notin> set function_map \<longrightarrow>
      fst (execute_function env (Some nt) (fc_name fc) (fc_args fc)) =
        Inl (ValueError (''Unknown function: '' @ fc_name fc))) \<and>
   (grants env en \<and> script (rs_chat st) = r' # tail_script \<and> int it < mx \<and> requests_tools r \<longrightarrow>
      (\<exists>st'.
          tool_loop env en model mx st r it tot hist =
            tool_loop env en model mx st' r' (Suc it) (accumulate tot r')
              (hist @ fst (snd (execute_calls env (rs_tools st) (tool_calls_of r)))) \<and>
          sent (rs_chat st') =
            sent (rs_chat st) @
              [FunctionResponses (fst (execute_calls env (rs_tools st) (tool_calls_of r)))]))"
proof (intro conjI impI)
  show "map fr_name (fst (execute_calls env tools calls)) = map fc_name calls"
    by (rule execute_calls_names)
next
  assume c: "calls = before @ fc # rest"
  obtain outcome tools' where
    ef: "execute_function env (snd (snd (execute_calls env tools before))) (fc_name fc) (fc_args fc)
            = (outcome, tools')"
    by (cases "execute_function env (snd (snd (execute_calls env tools before))) (fc_name fc) (fc_args fc)")
      auto
  have "fst (execute_calls env tools calls) =
          fst (execute_calls env tools before) @
          fst (execute_calls env (snd (snd (execute_calls env tools before))) (fc # rest))"
    unfolding c execute_calls_append by (simp add: split_beta Let_def)
  also have "fst (execute_calls env (snd (snd (execute_calls env tools before))) (fc # rest)) =
      \<lparr>fr_name = fc_name fc,
        fr_response = (case outcome of Inl e \<Rightarrow> Error (str_exn e) | Inr v \<Rightarrow> Result v)\<rparr> #
      fst (execute_calls env tools' rest)"
    by (rule execute_calls_single [OF ef])
  finally show "\<exists>outcome tools'.
          execute_function env (snd (snd (execute_calls env tools before))) (fc_name fc) (fc_args fc)
            = (outcome, tools') \<and>
          fst (execute_calls env tools calls) =
            fst (execute_calls env tools before) @
            \<lparr>fr_name = fc_name fc,
              fr_response = (case outcome of Inl e \<Rightarrow> Error (str_exn e) | Inr v \<Rightarrow> Result v)\<rparr> #
            fst (execute_calls env tools' rest)"
    using ef by blast
next
  assume "fc_name fc \<notin> set function_map"
  then show "fst (execute_function env (Some nt) (fc_name fc) (fc_args fc)) =
        Inl (ValueError (''Unknown function: '' @ fc_name fc))"
    by (simp add: execute_function_unknown)
next
  assume "grants env en \<and> script (rs_chat st) = r' # tail_script \<and> int it < mx \<and> requests_tools r"
  then show "\<exists>st'.
          tool_loop env en model mx st r it tot hist =
            tool_loop env en model mx st' r' (Suc it) (accumulate tot r')
              (hist @ fst (snd (execute_calls env (rs_tools st) (tool_calls_of r)))) \<and>
          sent (rs_chat st') =
            sent (rs_chat st) @
              [FunctionResponses (fst (execute_calls env (rs_tools st) (tool_calls_of r)))]"
    using tool_loop_sends by blast
qed

definition delete_call :: function_call where
  "delete_call = \<lparr>fc_name = ''delete_file'', fc_args = [(''filepath'', ''notes.py'')]\<rparr>"

definition misnamed_call :: function_call where
  "misnamed_call = \<lparr>fc_name = ''read_file'', fc_args = [(''path'', ''notes.py'')]\<rparr>"

definition mixed_calls :: "function_call list" where
  "mixed_calls = [delete_call, read_main, misnamed_call]"

definition mixed_state :: "unit run_state" where
  "mixed_state =
     \<lparr>rs_chat = \<lparr>script = [final_answer NoUsageAttr ''done''], sent = []\<rparr>,
      rs_tools = Some sibling_tools,
      rs_limiter = ()\<rparr>"


theorem tool_failures_stay_per_call_witness:
  "fst (execute_calls (scripted_env []) (Some sibling_tools) mixed_calls) =
     [\<lparr>fr_name = ''delete_file'', fr_response = Error ''Unknown function: delete_file''\<rparr>,
      \<lparr>fr_name = ''read_file'',
        fr_response = Result (VStr (''Error: see the log'' @ [CHR 0x0A] @ ''import os''))\<rparr>,
      \<lparr>fr_name = ''read_file'',
        fr_response = Error ''read_file() got an unexpected keyword argument''\<rparr>] \<and>
   fst (execute_function (scripted_env []) (Some sibling_tools) (fc_name delete_call) (fc_args delete_call))
     = Inl (ValueError ''Unknown function: delete_file'') \<and>
   (\<exists>st'.
      tool_loop (scripted_env []) True ''gemini-2.5-pro'' 5 mixed_state
          (tool_request NoUsageAttr mixed_calls) 0 zero_totals [] =
        tool_loop (scripted_env []) True ''gemini-2.5-pro'' 5 st'
          (final_answer NoUsageAttr ''done'') (Suc 0)
          (accumulate zero_totals (final_answer NoUsageAttr ''done''))
          ([] @ fst (snd (execute_calls (scripted_env []) (Some sibling_tools) mixed_calls))) \<and>
      sent (rs_chat st') =
        [FunctionResponses
          [\<lparr>fr_name = ''delete_file'', fr_response = Error ''Unknown function: delete_file''\<rparr>,
           \<lparr>fr_name = ''read_file'',
             fr_response = Result (VStr (''Error: see the log'' @ [CHR 0x0A] @ ''import os''))\<rparr>,
           \<lparr>fr_name = ''read_file'',
             fr_response = Error ''read_file() got an unexpected keyword argument''\<rparr>]])"
proof -
  let ?env = "scripted_env [] :: unit client_env"
  let ?r = "tool_request NoUsageAttr mixed_calls"
  let ?f = "final_answer NoUsageAttr ''done''"
  have ev: "fst (execute_calls ?env (Some sibling_tools) mixed_calls) =
     [\<lparr>fr_name = ''delete_file'', fr_response = Error ''Unknown function: delete_file''\<rparr>,
      \<lparr>fr_name = ''read_file'',
        fr_response = Result (VStr (''Error: see the log'' @ [CHR 0x0A] @ ''import os''))\<rparr>,
      \<lparr>fr_name = ''read_file'',
        fr_response = Error ''read_file() got an unexpected keyword argument''\<rparr>]"
    by code_simp
  have split: "mixed_calls = [] @ delete_call # [read_main, misnamed_call]"
    by (simp add: mixed_calls_def)
  have unknown: "fc_name delete_call \<notin> set function_map"
    by (simp add: delete_call_def function_map_def)
  have name: "fc_name delete_call = ''delete_file''" by (simp add: delete_call_def)
  have gr: "grants ?env True" by (simp add: grants_def scripted_env_def)
  have sc: "script (rs_chat mixed_state) = ?f # []" "sent (rs_chat mixed_state) = []"
      "rs_tools mixed_state = Some sibling_tools"
    by (simp_all add: mixed_state_def)
  have rq: "requests_tools ?r" "tool_calls_of ?r = mixed_calls"
    by (simp_all add: requests_tools_def tool_calls_of_def tool_request_def mixed_calls_def)
  have lt: "int 0 < 5" by simp
  from tool_failures_stay_per_call [of ?env "Some sibling_tools" mixed_calls "[]" delete_call
      "[read_main, misnamed_call]" sibling_tools True mixed_state ?f "[]" 0 5 ?r
      "''gemini-2.5-pro''" zero_totals "[]"]
    split unknown gr sc(1) lt rq(1)
  have u: "fst (execute_function ?env (Some sibling_tools) (fc_name delete_call) (fc_args delete_call))
        = Inl (ValueError (''Unknown function: '' @ fc_name delete_call))"
    and l: "\<exists>st'.
      tool_loop ?env True ''gemini-2.5-pro'' 5 mixed_state ?r 0 zero_totals [] =
        tool_loop ?env True ''gemini-2.5-pro'' 5 st' ?f (Suc 0) (accumulate zero_totals ?f)
          ([] @ fst (snd (execute_calls ?env (rs_tools mixed_state) (tool_calls_of ?r)))) \<and>
      sent (rs_chat st') =
        sent (rs_chat mixed_state) @
          [FunctionResponses (fst (execute_calls ?env (rs_tools mixed_state) (tool_calls_of ?r)))]"
    by blast+
  from u have u': "fst (execute_function ?env (Some sibling_tools) (fc_name delete_call) (fc_args delete_call))
        = Inl (ValueError ''Unknown function: delete_file'')"
    by (simp add: name)
  from l have l': "\<exists>st'.
      tool_loop ?env True ''gemini-2.5-pro'' 5 mixed_state ?r 0 zero_totals [] =
        tool_loop ?env True ''gemini-2.5-pro'' 5 st' ?f (Suc 0) (accumulate zero_totals ?f)
          ([] @ fst (snd (execute_calls ?env (Some sibling_tools) mixed_calls))) \<and>
      sent (rs_chat st') =
        [FunctionResponses (fst (execute_calls ?env (Some sibling_tools) mixed_calls))]"
    by (simp only: sc rq append_Nil)
  show ?thesis
    using ev u' l' by (simp only:)
qed

section \<open>Review service (\<open>reviewer/service.py\<close>)\<close>

subsection \<open>Requests, sessions and the environment\<close>

text \<open>
  Of a review request the session logic reads the session name, the project root and
  the model configuration (\<open>model_name\<close> and \<open>debug\<close>, the fields \<open>request_model\<close>
  and \<open>request_debug\<close>); the remaining fields are only handed on to the review.
\<close>

record ReviewRequest =
  session_name :: string
  project_root :: string
  request_model :: string
  request_debug :: bool

text \<open>
  The \<open>GeminiClient\<close> object that a session owns, as a reference (the number of clients
  built before it) and the arguments it was built with.
\<close>

record client_handle =
  handle_ref :: nat
  handle_model :: string
  handle_debug :: bool

text \<open>
  A session dictionary. \<open>session['chat']\<close> is \<open>gemini_client.chat\<close> as it is when the
  session is created, which is \<open>None\<close>; \<open>last_issues_count\<close> is \<open>None\<close> while the key
  is absent. The keys \<open>project_root\<close>, \<open>model_name\<close> and \<open>chat\<close> are the fields
  \<open>session_root\<close>, \<open>session_model\<close> and \<open>session_chat\<close>.
\<close>

record session =
  client :: client_handle
  display_name :: string
  session_root :: string
  created_at :: real
  last_reviewed :: real
  iteration :: int
  session_model :: string
  chat_history :: "string list"
  session_chat :: "unit option"
  last_issues_count :: "nat option"

record service =
  active_sessions :: "string \<rightharpoonup> session"
  clients_built :: nat


text \<open>
  The environment of one request: the file system, the home directory and the resolved
  temporary directory as strings, the \<open>GEMINI_API_KEY\<close> variable, the reading of
  \<open>datetime.now()\<close>, the building of the index, the tools and the context (which may
  raise), the review itself, given the session, the request and the session status,
  which yields the review content (\<open>None\<close> for Python's \<open>None\<close>) or raises, and the
  history of a chat object.
\<close>

record service_env =
  service_fs :: filesystem
  home :: string
  temp_root :: string
  api_key :: "string option"
  now :: real
  prepare :: "session \<Rightarrow> ReviewRequest \<Rightarrow> exn option"
  run_review :: "session \<Rightarrow> ReviewRequest \<Rightarrow> string \<Rightarrow> exn + string option"
  get_history :: "unit \<Rightarrow> exn + string list"

record SessionInfo =
  info_name :: string
  status :: string
  info_iteration :: int
  info_created_at :: real
  info_last_reviewed :: real
  chat_messages_count :: nat
  previous_issues_count :: "nat option"

record ReviewResponse =
  session_info :: SessionInfo
  review_result :: string

subsection \<open>Validation of the project root\<close>

text \<open>
  \<open>Path.resolve(strict=True)\<close> on the file system without symbolic links: every
  component has to exist, below a directory.
\<close>

fun walk :: "filesystem \<Rightarrow> string list \<Rightarrow> string list \<Rightarrow> exn + string list" where
  "walk fs cur [] = Inr cur"
| "walk fs cur (c # cs) =
     (if c = ''..'' then walk fs (butlast cur) cs
      else
        (case lookup fs cur of
           Some (File d) \<Rightarrow> Inl (OtherError ''Not a directory'')
         | _ \<Rightarrow>
             (case lookup fs (cur @ [c]) of
                None \<Rightarrow> Inl (FileNotFoundError ''No such file or directory'')
              | Some n \<Rightarrow> walk fs (cur @ [c]) cs)))"

definition resolve_strict :: "filesystem \<Rightarrow> path \<Rightarrow> exn + string list" where
  "resolve_strict fs p =
     (if has_nul p then Inl (ValueError ''embedded null byte'')
      else walk fs (if absolute p then [] else cwd fs) (parts p))"

definition safe_prefixes :: "service_env \<Rightarrow> string list" where
  "safe_prefixes env = [home env, temp_root env, ''/tmp'', ''/var/folders'', ''/private/var/folders'']"

text \<open>
  The \<open>try\<close> block at the head of \<open>handle_review\<close>: \<open>ValueError\<close> and
  \<open>FileNotFoundError\<close> become the HTTP error 400, any other exception leaves the
  function as it is.
\<close>

definition invalid_project_root :: "string \<Rightarrow> exn" where
  "invalid_project_root detail = HTTPException 400 (''Invalid project_root: '' @ detail)"

definition validate_project_root :: "service_env \<Rightarrow> string \<Rightarrow> exn + string list" where
  "validate_project_root env root_string =
     (case resolve_strict (service_fs env) (Path root_string) of
        Inl (ValueError m) \<Rightarrow> Inl (invalid_project_root m)
      | Inl (FileNotFoundError m) \<Rightarrow> Inl (invalid_project_root m)
      | Inl e \<Rightarrow> Inl e
      | Inr resolved \<Rightarrow>
          if lookup (service_fs env) resolved \<noteq> Some Dir
          then Inl (invalid_project_root ''Path is not a directory'')
          else if \<not> list_ex (\<lambda>p. startswith (str_abs resolved) p) (safe_prefixes env)
          then Inl (invalid_project_root ''Project path is outside safe boundaries'')
          else Inr resolved)"

subsection \<open>Sessions\<close>

text \<open>\<open>str.count\<close>: the number of occurrences that do not overlap.\<close>

function count_occurrences :: "string \<Rightarrow> string \<Rightarrow> nat" where
  "count_occurrences s sub =
     (if sub = [] then Suc (length s)
      else if s = [] then 0
      else if startswith s sub then Suc (count_occurrences (drop (length sub) s) sub)
      else count_occurrences (tl s) sub)"
  by pat_completeness auto
termination
  by (relation "measure (\<lambda>(s, sub). length s)") (auto intro!: diff_less)

declare count_occurrences.simps [simp del]

definition count_issues_in_review :: "string \<Rightarrow> nat" where
  "count_issues_in_review content =
     sum_list (map (count_occurrences content)
                 [''ISSUE:'', ''ERROR:'', ''WARNING:'', ''FILE:'', ''Line:''])"

definition create_new_session ::
  "service_env \<Rightarrow> service \<Rightarrow> string \<Rightarrow> string \<Rightarrow> ReviewRequest \<Rightarrow> string list
     \<Rightarrow> exn + session \<times> service"
where
  "create_new_session env svc session_key shown request resolved =
     (if api_key env = None \<or> api_key env = Some []
      then Inl (ValueError ''Gemini API key not provided. Set GEMINI_API_KEY environment variable.'')
      else
        (let gemini_client = \<lparr>handle_ref = clients_built svc, handle_model = request_model request,
                                handle_debug = request_debug request\<rparr>;
             new_session =
               \<lparr>client = gemini_client,
                display_name = shown,
                session_root = str_abs resolved,
                created_at = now env,
                last_reviewed = now env,
                iteration = 1,
                session_model = request_model request,
                chat_history = [],
                session_chat = None,
                last_issues_count = None\<rparr>
         in Inr (new_session,
                 svc\<lparr>active_sessions := (active_sessions svc)(session_key \<mapsto> new_session),
                     clients_built := Suc (clients_built svc)\<rparr>)))"

text \<open>
  The part of \<open>handle_review\<close> after the session is found or made: prepare the tools and
  the context, run the review, store the chat history and the count of issues in the
  session, and build the response. An exception of the review, or of counting issues in
  a content that is \<open>None\<close>, becomes the HTTP error 500.
\<close>

definition update_history :: "service_env \<Rightarrow> session \<Rightarrow> session" where
  "update_history env s =
     (case session_chat s of
        None \<Rightarrow> s
      | Some c \<Rightarrow>
          (case get_history env c of
             Inl e \<Rightarrow> s
           | Inr h \<Rightarrow> s\<lparr>chat_history := h\<rparr>))"

definition perform_review ::
  "service_env \<Rightarrow> service \<Rightarrow> string \<Rightarrow> session \<Rightarrow> string \<Rightarrow> nat option \<Rightarrow> ReviewRequest
     \<Rightarrow> (exn + ReviewResponse) \<times> service"
where
  "perform_review env svc session_key s session_status previous_issues request =
     (case prepare env s request of
        Some e \<Rightarrow> (Inl e, svc)
      | None \<Rightarrow>
          (case run_review env s request session_status of
             Inl e \<Rightarrow> (Inl (HTTPException 500 (''Review failed: '' @ str_exn e)), svc)
           | Inr content \<Rightarrow>
               (let s1 = update_history env s;
                    svc1 = svc\<lparr>active_sessions := (active_sessions svc)(session_key \<mapsto> s1)\<rparr>
                in case content of
                     None \<Rightarrow>
                       (Inl (HTTPException 500
                          (''Review failed: '' @ [CHR 0x27] @ ''NoneType'' @ [CHR 0x27] @
                            '' object has no attribute '' @ [CHR 0x27] @ ''count'' @ [CHR 0x27])), svc1)
                   | Some content_text \<Rightarrow>
                       (let s2 = s1\<lparr>last_issues_count := Some (count_issues_in_review content_text)\<rparr>;
                            svc2 = svc\<lparr>active_sessions := (active_sessions svc)(session_key \<mapsto> s2)\<rparr>
                        in (Inr \<lparr>session_info =
                                   \<lparr>info_name = display_name s2,
                                    status = session_status,
                                    info_iteration = iteration s2,
                                    info_created_at = created_at s2,
                                    info_last_reviewed = last_reviewed s2,
                                    chat_messages_count = length (chat_history s2),
                                    previous_issues_count = previous_issues\<rparr>,
                                 review_result = content_text\<rparr>,
                            svc2)))))"

definition session_key_of :: "string list \<Rightarrow> string \<Rightarrow> string" where
  "session_key_of resolved nm = str_abs resolved @ '':'' @ nm"

definition handle_review ::
  "service_env \<Rightarrow> service \<Rightarrow> ReviewRequest \<Rightarrow> (exn + ReviewResponse) \<times> service"
where
  "handle_review env svc request =
     (case validate_project_root env (project_root request) of
        Inl e \<Rightarrow> (Inl e, svc)
      | Inr resolved \<Rightarrow>
          (let session_key = session_key_of resolved (session_name request) in
           case active_sessions svc session_key of
             None \<Rightarrow>
               (case create_new_session env svc session_key (session_name request) request resolved of
                  Inl e \<Rightarrow> (Inl e, svc)
                | Inr (s, svc') \<Rightarrow> perform_review env svc' session_key s ''new'' None request)
           | Some existing \<Rightarrow>
               (let s = existing\<lparr>iteration := iteration existing + 1, last_reviewed := now env\<rparr>;
                    svc' = svc\<lparr>active_sessions := (active_sessions svc)(session_key \<mapsto> s)\<rparr>
                in perform_review env svc' session_key s ''continued'' (last_issues_count s) request)))"






subsection \<open>Rejection of an invalid project root\<close>




subsection \<open>Session keys\<close>

lemma session_key_same_name:
  "str_abs root_a \<noteq> str_abs root_b \<Longrightarrow> session_key_of root_a nm \<noteq> session_key_of root_b nm"
  by (simp add: session_key_of_def)

lemma perform_review_frame:
  assumes "perform_review env svc key s st prev request = (r, svc')" and "k \<noteq> key"
  shows "active_sessions svc' k = active_sessions svc k"
  using assms
  by (auto simp: perform_review_def Let_def split: option.splits sum.splits)

text \<open>A request changes no session but the one under its own key.\<close>

lemma handle_review_frame:
  assumes "handle_review env svc request = (r, svc')"
      and "validate_project_root env (project_root request) = Inr resolved"
      and "k \<noteq> session_key_of resolved (session_name request)"
  shows "active_sessions svc' k = active_sessions svc k"
proof (cases "active_sessions svc (session_key_of resolved (session_name request))")
  case None
  show ?thesis
  proof (cases "create_new_session env svc (session_key_of resolved (session_name request))
                  (session_name request) request resolved")
    case (Inl e)
    with assms None show ?thesis by (simp add: handle_review_def)
  next
    case (Inr p)
    obtain s svc1 where p: "p = (s, svc1)" by (cases p)
    have a: "active_sessions svc1 k = active_sessions svc k"
      using Inr p assms(3) by (auto simp: create_new_session_def Let_def split: if_splits)
    have "perform_review env svc1 (session_key_of resolved (session_name request)) s ''new'' None request
            = (r, svc')"
      using assms(1,2) None Inr p by (simp add: handle_review_def)
    from perform_review_frame [OF this assms(3)] a show ?thesis by simp
  qed
next
  case (Some existing)
  define s where "s = existing\<lparr>iteration := iteration existing + 1, last_reviewed := now env\<rparr>"
  define svc1 where "svc1 = svc\<lparr>active_sessions :=
      (active_sessions svc)(session_key_of resolved (session_name request) \<mapsto> s)\<rparr>"
  have a: "active_sessions svc1 k = active_sessions svc k"
    using assms(3) by (simp add: svc1_def)
  have "perform_review env svc1 (session_key_of resolved (session_name request)) s ''continued''
            (last_issues_count s) request = (r, svc')"
    using assms(1,2) Some by (simp add: handle_review_def Let_def s_def svc1_def)
  from perform_review_frame [OF this assms(3)] a show ?thesis by simp
qed

lemma first_request_is_new:
  assumes "validate_project_root env (project_root request) = Inr resolved"
      and "active_sessions svc (session_key_of resolved (session_name request)) = None"
      and "api_key env = Some k" and "k \<noteq> []"
      and "prepare env = (\<lambda>s r. None)" and "run_review env = (\<lambda>s r st. Inr (Some txt))"
  shows "\<exists>resp svc' s.
           handle_review env svc request = (Inr resp, svc') \<and>
           status (session_info resp) = ''new'' \<and> info_iteration (session_info resp) = 1 \<and>
           active_sessions svc' (session_key_of resolved (session_name request)) = Some s \<and>
           iteration s = 1 \<and> session_root s = str_abs resolved"
  using assms
  by (simp add: handle_review_def create_new_session_def perform_review_def update_history_def
      Let_def)

lemma later_request_continues:
  assumes "validate_project_root env (project_root request) = Inr resolved"
      and "active_sessions svc (session_key_of resolved (session_name request)) = Some existing"
      and "prepare env = (\<lambda>s r. None)" and "run_review env = (\<lambda>s r st. Inr (Some txt))"
  shows "\<exists>resp svc' s.
           handle_review env svc request = (Inr resp, svc') \<and>
           status (session_info resp) = ''continued'' \<and>
           info_iteration (session_info resp) = iteration existing + 1 \<and>
           active_sessions svc' (session_key_of resolved (session_name request)) = Some s \<and>
           iteration s = iteration existing + 1 \<and> client s = client existing"
  using assms
  by (auto simp: handle_review_def perform_review_def update_history_def Let_def
      split: option.splits sum.splits)

text \<open>
  Two roots with one session name have two keys, so a request for one of them leaves the
  session of the other as it is.
\<close>

lemma same_name_sessions_isolated:
  assumes "handle_review env svc request = (r, svc')"
      and "validate_project_root env (project_root request) = Inr root_a"
      and "str_abs root_a \<noteq> str_abs root_b"
  shows "active_sessions svc' (session_key_of root_b (session_name request)) =
         active_sessions svc (session_key_of root_b (session_name request))"
  using handle_review_frame [OF assms(1,2)] session_key_same_name [OF assms(3)]
  by metis


end
